theory Spec2Isabelle
  imports Main "HOL-Library.Word" "HOL-Library.Sublist" "HOL-Library.AList"
begin

section \<open>MrDaniel: news retrieval, analyst chat and report export of \<^verbatim>\<open>index.tsx\<close>\<close>

text \<open>
  The component \<^verbatim>\<open>MrDanielApp\<close> keeps its data in React state and one ref, and
  changes it only inside event handlers and inside the two asynchronous functions
  \<^verbatim>\<open>fetchNews\<close> and \<^verbatim>\<open>handleChat\<close>. The embedding below passes that state
  explicitly. An asynchronous function is cut at its \<^verbatim>\<open>await\<close>: the part that runs
  inside the event that started it, and the part that runs when the provider settles the
  call. Each part runs to completion on the single UI thread and reads the state committed
  by the part that ran before it. Making the client object (\<^verbatim>\<open>new GoogleGenAI\<close>) and the
  chat session (\<^verbatim>\<open>ai.chats.create\<close>) involves no request to the provider and is taken to
  succeed; the calls that can fail are \<^verbatim>\<open>generateContent\<close> and \<^verbatim>\<open>sendMessage\<close>.
\<close>

subsection \<open>JavaScript strings\<close>

text \<open>
  A JavaScript string is a sequence of 16-bit code units. \<open>lit\<close> turns an ASCII literal of
  the source into such a sequence; code units beyond ASCII are written as numbers.
\<close>

type_synonym code_unit = "16 word"
type_synonym jsstring = "code_unit list"

definition lit :: "string \<Rightarrow> jsstring" where
  "lit s = map (\<lambda>c. of_nat (of_char c)) s"

text \<open>
  \<^verbatim>\<open>String.prototype.trim\<close> strips the code units of the ECMAScript productions
  WhiteSpace (TAB, VT, FF, ZWNBSP and the Unicode space separators) and LineTerminator
  (LF, CR, LS, PS) from both ends.
\<close>

definition isWhiteSpace :: "code_unit \<Rightarrow> bool" where
  "isWhiteSpace c = (c \<in> set [0x0009, 0x000A, 0x000B, 0x000C, 0x000D, 0x0020, 0x00A0, 0x1680,
      0x2000, 0x2001, 0x2002, 0x2003, 0x2004, 0x2005, 0x2006, 0x2007, 0x2008, 0x2009, 0x200A,
      0x2028, 0x2029, 0x202F, 0x205F, 0x3000, 0xFEFF])"

definition trim :: "jsstring \<Rightarrow> jsstring" where
  "trim s = rev (dropWhile isWhiteSpace (rev (dropWhile isWhiteSpace s)))"

text \<open>\<^verbatim>\<open>Array.prototype.join\<close> on an array whose elements are already strings.\<close>

fun join :: "jsstring \<Rightarrow> jsstring list \<Rightarrow> jsstring" where
  "join sep [] = []"
| "join sep [x] = x"
| "join sep (x # y # ys) = x @ sep @ join sep (y # ys)"

text \<open>
  The decimal digits of a natural number, and the string of an integer-valued number
  (what a template literal makes of \<^verbatim>\<open>new Date().getTime()\<close>, and the keys of array
  elements).
\<close>

fun digits :: "nat \<Rightarrow> jsstring" where
  "digits n = (if n < 10 then [of_nat (48 + n)] else digits (n div 10) @ [of_nat (48 + n mod 10)])"

definition toString_int :: "int \<Rightarrow> jsstring" where
  "toString_int i = (if i < 0 then lit ''-'' @ digits (nat (- i)) else digits (nat i))"

subsection \<open>Values read from the provider\<close>

text \<open>
  The result of \<^verbatim>\<open>JSON.parse\<close> has type \<^verbatim>\<open>any\<close>: it is whatever JSON value the text
  denotes. A number is kept as the string \<^verbatim>\<open>Number.prototype.toString\<close> gives for it
  (the program does no arithmetic on parsed numbers), an object as the list of its own
  properties.
\<close>

datatype json =
    JNull
  | JBool bool
  | JNum jsstring
  | JStr jsstring
  | JArr "json list"
  | JObj "(jsstring \<times> json) list"

text \<open>
  The response of \<^verbatim>\<open>generateContent\<close> and of \<^verbatim>\<open>sendMessage\<close>, with the optional
  fields the program reads (\<^verbatim>\<open>candidates?.[0]?.groundingMetadata?.groundingChunks\<close>,
  \<^verbatim>\<open>c.web\<close>, \<^verbatim>\<open>response.text\<close>). \<open>None\<close> is \<^verbatim>\<open>undefined\<close>. The field \<open>web_title\<close> is
  \<^verbatim>\<open>title\<close> in the source.
\<close>

record GroundingChunkWeb =
  uri :: "jsstring option"
  web_title :: "jsstring option"

record GroundingChunk =
  web :: "GroundingChunkWeb option"

record GroundingMetadata =
  groundingChunks :: "GroundingChunk list option"

record Candidate =
  groundingMetadata :: "GroundingMetadata option"

record GenerateContentResponse =
  candidates :: "Candidate list option"
  response_text :: "jsstring option"

text \<open>
  An object held in the \<^verbatim>\<open>news\<close> state: the own properties of a parsed item, and the
  property \<^verbatim>\<open>groundingSources\<close> that \<^verbatim>\<open>fetchNews\<close> adds. Reading a property that the
  object does not have gives \<^verbatim>\<open>undefined\<close>, here \<open>None\<close>.
\<close>

datatype propval = Parsed json | Citations "GroundingChunkWeb list"

type_synonym jsobject = "(jsstring \<times> propval) list"

definition get_prop :: "jsobject \<Rightarrow> jsstring \<Rightarrow> propval option" where
  "get_prop obj key = map_of obj key"

text \<open>
  The own enumerable properties that the spread \<^verbatim>\<open>{...item}\<close> copies: those of an
  object, the indexed elements of an array or of a string, none for the other values.
\<close>

fun ownProperties :: "json \<Rightarrow> (jsstring \<times> json) list" where
  "ownProperties (JObj kvs) = kvs"
| "ownProperties (JArr xs) = zip (map digits [0..<length xs]) xs"
| "ownProperties (JStr s) = zip (map digits [0..<length s]) (map (\<lambda>c. JStr [c]) s)"
| "ownProperties JNull = []"
| "ownProperties (JBool b) = []"
| "ownProperties (JNum n) = []"

text \<open>\<^verbatim>\<open>({ ...item, groundingSources: grounding })\<close>\<close>

definition annotate :: "GroundingChunkWeb list \<Rightarrow> json \<Rightarrow> jsobject" where
  "annotate grounding item =
     AList.update (lit ''groundingSources'') (Citations grounding)
       (map (\<lambda>(k, v). (k, Parsed v)) (ownProperties item))"

text \<open>
  The conversions that \<^verbatim>\<open>exportCSV\<close> applies to property values: \<^verbatim>\<open>ToString\<close> (in the
  template literal), \<^verbatim>\<open>ToBoolean\<close> (in the conditional), and the conversion of
  \<^verbatim>\<open>Array.prototype.join\<close>, which makes the empty string of \<^verbatim>\<open>undefined\<close> and
  \<^verbatim>\<open>null\<close>.
\<close>

fun ToString_json :: "json \<Rightarrow> jsstring" where
  "ToString_json JNull = lit ''null''"
| "ToString_json (JBool b) = (if b then lit ''true'' else lit ''false'')"
| "ToString_json (JNum n) = n"
| "ToString_json (JStr s) = s"
| "ToString_json (JArr xs) =
     join (lit '','') (map (\<lambda>x. if x = JNull then [] else ToString_json x) xs)"
| "ToString_json (JObj kvs) = lit ''[object Object]''"

fun ToString :: "propval option \<Rightarrow> jsstring" where
  "ToString None = lit ''undefined''"
| "ToString (Some (Parsed j)) = ToString_json j"
| "ToString (Some (Citations ws)) = join (lit '','') (map (\<lambda>w. lit ''[object Object]'') ws)"

fun ToBoolean :: "propval option \<Rightarrow> bool" where
  "ToBoolean None = False"
| "ToBoolean (Some (Parsed JNull)) = False"
| "ToBoolean (Some (Parsed (JBool b))) = b"
| "ToBoolean (Some (Parsed (JNum n))) = (n \<noteq> lit ''0'' \<and> n \<noteq> lit ''NaN'')"
| "ToBoolean (Some (Parsed (JStr s))) = (s \<noteq> [])"
| "ToBoolean (Some (Parsed (JArr xs))) = True"
| "ToBoolean (Some (Parsed (JObj kvs))) = True"
| "ToBoolean (Some (Citations ws)) = True"

fun join_element :: "propval option \<Rightarrow> jsstring" where
  "join_element None = []"
| "join_element (Some (Parsed JNull)) = []"
| "join_element v = ToString v"

definition array_join :: "jsstring \<Rightarrow> propval option list \<Rightarrow> jsstring" where
  "array_join sep xs = join sep (map join_element xs)"

subsection \<open>Types and state of the component\<close>

datatype role = User | Model

text \<open>
  \<^verbatim>\<open>interface ChatMessage { role; text }\<close>. The text of a reply is \<^verbatim>\<open>response.text\<close>,
  which the provider may leave \<^verbatim>\<open>undefined\<close>, so the field holds an option.
\<close>

record ChatMessage =
  role :: role
  msg_text :: "jsstring option"

datatype view = NewsView | ChatView

datatype tool = GoogleSearch

text \<open>The chat session that \<^verbatim>\<open>ai.chats.create\<close> returns, with the parameters it was made from.\<close>

record Chat =
  chat_model :: jsstring
  systemInstruction :: jsstring
  chat_tools :: "tool list"

datatype schema = STRING | BOOLEAN | ARRAY schema | OBJECT "(string \<times> schema) list" "string list"

record GenerateContentParameters =
  model :: jsstring
  contents :: jsstring
  tools :: "tool list"
  responseMimeType :: jsstring
  responseSchema :: schema

text \<open>The uses of the provider's client, in the order the program makes them.\<close>

datatype call =
    is_GenerateContent: GenerateContent (request: GenerateContentParameters)
  | is_ChatsCreate: ChatsCreate (created: Chat)
  | is_SendMessage: SendMessage (session: Chat) (message: jsstring)

text \<open>What a call throws or rejects with, and how a pending call settles.\<close>

datatype exn = ProviderError jsstring | SyntaxError | TypeError

datatype 'a outcome = Resolved 'a | Rejected exn

text \<open>The two \<^verbatim>\<open>console.error\<close> lines.\<close>

datatype log = NewsEngineFailure exn | ChatEngineFailure exn

text \<open>The file that \<^verbatim>\<open>exportCSV\<close> offers: the \<^verbatim>\<open>download\<close> attribute and the blob.\<close>

record Download =
  download :: jsstring
  blob_parts :: jsstring
  blob_type :: jsstring

text \<open>
  The \<^verbatim>\<open>useState\<close> cells and the \<^verbatim>\<open>chatInstance\<close> ref that the handlers read or
  write (the locale bundle, the verification target and the scroll ref play no part in
  them).
\<close>

record AppState =
  activeView :: view
  isDrawerOpen :: bool
  selectedCategory :: jsstring
  news :: "jsobject list"
  loading :: bool
  lastSync :: int
  chatMessages :: "ChatMessage list"
  input :: jsstring
  isTyping :: bool
  chatInstance :: "Chat option"

text \<open>
  The component's state together with what it has done to its surroundings: the calls made
  so far, the number of calls not yet settled, the console and the files offered.
\<close>

record World =
  app :: AppState
  calls :: "call list"
  newsInFlight :: nat
  chatInFlight :: nat
  console :: "log list"
  downloads :: "Download list"

text \<open>
  What a piece of code reads from its surroundings when it runs: the clock
  (\<^verbatim>\<open>new Date()\<close>, in milliseconds since the epoch) and \<^verbatim>\<open>navigator.language\<close>.
\<close>

record Ambient =
  now :: int
  language :: jsstring

text \<open>
  The built-in functions of the runtime that the program calls and that are not part of
  it. \<open>JSON_parse\<close> gives \<open>None\<close> where \<^verbatim>\<open>JSON.parse\<close> throws a \<^verbatim>\<open>SyntaxError\<close>; the
  two locale formatters stand for \<^verbatim>\<open>toLocaleDateString\<close> and \<^verbatim>\<open>toLocaleTimeString\<close>
  with the options of \<^verbatim>\<open>handleChat\<close>.
\<close>

record Browser =
  JSON_parse :: "jsstring \<Rightarrow> json option"
  toISOString :: "int \<Rightarrow> jsstring"
  toLocaleDateString :: "jsstring \<Rightarrow> int \<Rightarrow> jsstring"
  toLocaleTimeString :: "jsstring \<Rightarrow> int \<Rightarrow> jsstring"

definition CATEGORY_LIST :: "jsstring list" where
  "CATEGORY_LIST =
     [lit ''General'', lit ''Pol'' @ [0xED] @ lit ''tica'', lit ''Econom'' @ [0xED] @ lit ''a'',
      lit ''Internacional'', lit ''Seguridad'', lit ''Salud'', lit ''Energ'' @ [0xED] @ lit ''a'',
      lit ''Crisis'']"

subsection \<open>\<^verbatim>\<open>fetchNews\<close>\<close>

definition fetchNews_prompt :: "Browser \<Rightarrow> Ambient \<Rightarrow> jsstring \<Rightarrow> jsstring" where
  "fetchNews_prompt rt amb cat =
     (let langCode = language amb in
       lit ''Act as MrDaniel, God-Level News AI. Retrieve 8 most recent ''
       @ lit ''verified news items for '' @ [0x22] @ cat @ [0x22] @ lit '' in '' @ langCode
       @ lit ''.'' @ [0x0A] @ lit ''    MANDATORY RULES: '' @ [0x0A]
       @ lit ''    - ONLY confirmed facts. Current date: '' @ toISOString rt (now amb) @ lit ''.''
       @ [0x0A] @ lit ''    - Double source rule (isVerified=true only if 2+ major ''
       @ lit ''outlets).'' @ [0x0A] @ lit ''    - Tone: Professional, zero opinion.'' @ [0x0A]
       @ lit ''    - Response: JSON array of objects.'' @ [0x0A]
       @ lit ''    - Fields: id, title, summary, sources (array), url, ''
       @ lit ''timestamp, category, isVerified (boolean), verificationDetails.'')"

definition newsSchema :: schema where
  "newsSchema =
     ARRAY (OBJECT
       [(''id'', STRING), (''title'', STRING), (''summary'', STRING), (''sources'', ARRAY STRING),
        (''url'', STRING), (''timestamp'', STRING), (''category'', STRING),
        (''isVerified'', BOOLEAN), (''verificationDetails'', STRING)]
       [''id'', ''title'', ''summary'', ''sources'', ''url'', ''timestamp'', ''category'',
        ''isVerified'', ''verificationDetails''])"

definition fetchNews_request :: "Browser \<Rightarrow> Ambient \<Rightarrow> jsstring \<Rightarrow> GenerateContentParameters" where
  "fetchNews_request rt amb cat =
     \<lparr>model = lit ''gemini-3-flash-preview'',
      contents = fetchNews_prompt rt amb cat,
      tools = [GoogleSearch],
      responseMimeType = lit ''application/json'',
      responseSchema = newsSchema\<rparr>"

text \<open>
  \<^verbatim>\<open>fetchNews(cat)\<close> up to its \<^verbatim>\<open>await\<close>: \<^verbatim>\<open>setLoading(true)\<close>, then the call of
  \<^verbatim>\<open>ai.models.generateContent\<close>, which is now in flight.
\<close>

definition fetchNews_call :: "Browser \<Rightarrow> Ambient \<Rightarrow> jsstring \<Rightarrow> World \<Rightarrow> World" where
  "fetchNews_call rt amb cat w =
     w\<lparr>app := (app w)\<lparr>loading := True\<rparr>,
       calls := calls w @ [GenerateContent (fetchNews_request rt amb cat)],
       newsInFlight := Suc (newsInFlight w)\<rparr>"

text \<open>
  \<^verbatim>\<open>response.candidates?.[0]?.groundingMetadata?.groundingChunks?.map((c) => c.web)
  .filter(Boolean) || []\<close>: every link of the chain that is \<^verbatim>\<open>undefined\<close> makes the
  whole chain \<^verbatim>\<open>undefined\<close>, and then the list is empty.
\<close>

definition grounding_of :: "GenerateContentResponse \<Rightarrow> GroundingChunkWeb list" where
  "grounding_of response =
     (case candidates response of
        None \<Rightarrow> []
      | Some [] \<Rightarrow> []
      | Some (c # cs) \<Rightarrow>
          (case groundingMetadata c of
             None \<Rightarrow> []
           | Some gm \<Rightarrow>
               (case groundingChunks gm of
                  None \<Rightarrow> []
                | Some chunks \<Rightarrow> List.map_filter web chunks)))"

text \<open>\<^verbatim>\<open>response.text || "[]"\<close>: the fallback stands in for an absent and for an empty text.\<close>

definition text_or_fallback :: "GenerateContentResponse \<Rightarrow> jsstring" where
  "text_or_fallback response =
     (case response_text response of
        None \<Rightarrow> lit ''[]''
      | Some t \<Rightarrow> if t = [] then lit ''[]'' else t)"

text \<open>
  The \<^verbatim>\<open>try\<close> block from the point where the awaited call settles. A rejected call
  throws at the \<^verbatim>\<open>await\<close>; \<^verbatim>\<open>JSON.parse\<close> throws on text that is not JSON; \<^verbatim>\<open>.map\<close>
  throws on a parsed value that is not an array. The two state updates come last, so a
  throw leaves the state as it was.
\<close>

definition fetchNews_try ::
  "Browser \<Rightarrow> Ambient \<Rightarrow> GenerateContentResponse outcome \<Rightarrow> AppState \<Rightarrow> exn + AppState" where
  "fetchNews_try rt amb settled st =
     (case settled of
        Rejected err \<Rightarrow> Inl err
      | Resolved response \<Rightarrow>
          (let grounding = grounding_of response in
           case JSON_parse rt (text_or_fallback response) of
             None \<Rightarrow> Inl SyntaxError
           | Some (JArr items) \<Rightarrow>
               Inr (st\<lparr>news := map (annotate grounding) items, lastSync := now amb\<rparr>)
           | Some _ \<Rightarrow> Inl TypeError))"

text \<open>
  \<^verbatim>\<open>fetchNews\<close> from its \<^verbatim>\<open>await\<close> on: the \<^verbatim>\<open>try\<close> block, the \<^verbatim>\<open>catch\<close> clause that
  logs, and the \<^verbatim>\<open>finally\<close> clause. The result is \<open>Inl\<close> when an exception leaves the
  function.
\<close>

definition fetchNews_resume ::
  "Browser \<Rightarrow> Ambient \<Rightarrow> GenerateContentResponse outcome \<Rightarrow> World \<Rightarrow> exn + World" where
  "fetchNews_resume rt amb settled w =
     (let caught =
        (case fetchNews_try rt amb settled (app w) of
           Inr st \<Rightarrow> w\<lparr>app := st\<rparr>
         | Inl err \<Rightarrow> w\<lparr>console := console w @ [NewsEngineFailure err]\<rparr>)
      in Inr (caught\<lparr>app := (app caught)\<lparr>loading := False\<rparr>,
                     newsInFlight := newsInFlight w - 1\<rparr>))"

subsection \<open>\<^verbatim>\<open>handleChat\<close>\<close>

record TemporalContext =
  fullDate :: jsstring
  exactTime :: jsstring
  iso :: jsstring

definition temporalContext :: "Browser \<Rightarrow> Ambient \<Rightarrow> TemporalContext" where
  "temporalContext rt amb =
     \<lparr>fullDate = toLocaleDateString rt (language amb) (now amb),
      exactTime = toLocaleTimeString rt (language amb) (now amb),
      iso = toISOString rt (now amb)\<rparr>"

definition systemInstruction_text :: "Browser \<Rightarrow> Ambient \<Rightarrow> jsstring" where
  "systemInstruction_text rt amb =
     (let tc = temporalContext rt amb in
       lit ''Eres MrDaniel, el analista de noticias y auditor de realidad m'' @ [0xE1]
       @ lit ''s avanzado del mundo. '' @ [0x0A]
       @ lit ''    Tu nivel de consciencia temporal es ABSOLUTO. No solo sabes '' @ lit ''el a''
       @ [0xF1] @ lit ''o, conoces el segundo exacto.'' @ [0x0A, 0x0A]
       @ lit ''    CONTEXTO TEMPORAL ACTUAL (CR'' @ [0xCD] @ lit ''TICO):'' @ [0x0A]
       @ lit ''    - Fecha: '' @ fullDate tc @ [0x0A] @ lit ''    - Hora Exacta: '' @ exactTime tc
       @ [0x0A] @ lit ''    - Timestamp: '' @ iso tc @ [0x0A, 0x0A]
       @ lit ''    FORMA DE SER Y REDACTAR (ADN MRDANIEL):'' @ [0x0A]
       @ lit ''    - HUMANO Y PROFESIONAL: Escribe con la elegancia de un ''
       @ lit ''periodista de '' @ [0xE9]
       @ lit ''lite y la calidez de un mentor experto. Evita muletillas de IA ('' @ [0x22]
       @ lit ''Entiendo tu pregunta'' @ [0x22] @ lit '', '' @ [0x22]
       @ lit ''Como modelo de lenguaje'' @ [0x22] @ lit ''). Ve directo al grano con empat''
       @ [0xED] @ lit ''a.'' @ [0x0A] @ lit ''    - REDACCI'' @ [0xD3] @ lit ''N LIMPIA: Usa p''
       @ [0xE1] @ lit ''rrafos cortos, estructura impecable y un l'' @ [0xE9]
       @ lit ''xico rico pero accesible.'' @ [0x0A] @ lit ''    - SINCRONIZACI'' @ [0xD3]
       @ lit ''N LIVE: Est'' @ [0xE1]
       @ lit ''s conectado al flujo global de MrDaniel. Si algo ocurri'' @ [0xF3]
       @ lit '' hace 10 segundos, DEBES saberlo. Usa tu herramienta de b'' @ [0xFA]
       @ lit ''squeda (Google Search) en CADA respuesta para validar la '' @ lit ''actualidad.''
       @ [0x0A] @ lit ''    - PRECISI'' @ [0xD3] @ lit ''N QUIR'' @ [0xDA]
       @ lit ''RGICA: Si un dato no est'' @ [0xE1] @ lit '' verificado al 100%, dilo: '' @ [0x22]
       @ lit ''Estamos en proceso de auditor'' @ [0xED] @ lit ''a para este hecho espec'' @ [0xED]
       @ lit ''fico'' @ [0x22] @ lit ''. No especules jam'' @ [0xE1] @ lit ''s.'' @ [0x0A]
       @ lit ''    - IDIOMA: Responde siempre en el idioma que te hablen '' @ lit ''(prioridad: ''
       @ language amb @ lit '').'' @ [0x0A, 0x0A] @ lit ''    TU MISI'' @ [0xD3]
       @ lit ''N: Ayudar al usuario a navegar la complejidad del mundo actual ''
       @ lit ''con datos fr'' @ [0xED] @ lit ''os, contexto hist'' @ [0xF3]
       @ lit ''rico y una visi'' @ [0xF3]
       @ lit ''n humana. Eres el filtro definitivo entre el ruido y la verdad.'')"

definition chats_create :: "Browser \<Rightarrow> Ambient \<Rightarrow> Chat" where
  "chats_create rt amb =
     \<lparr>chat_model = lit ''gemini-3-flash-preview'',
      systemInstruction = systemInstruction_text rt amb,
      chat_tools = [GoogleSearch]\<rparr>"

text \<open>
  \<^verbatim>\<open>handleChat()\<close> up to its \<^verbatim>\<open>await\<close>: the guard, the three state updates, the
  session made when the ref is still empty, and the call of \<^verbatim>\<open>sendMessage\<close> with the
  input as it was when the handler started.
\<close>

definition handleChat_call :: "Browser \<Rightarrow> Ambient \<Rightarrow> World \<Rightarrow> World" where
  "handleChat_call rt amb w =
     (let st = app w in
      if trim (input st) = [] \<or> isTyping st then w
      else
        let userMsg = \<lparr>role = User, msg_text = Some (input st)\<rparr>;
            st1 = st\<lparr>chatMessages := chatMessages st @ [userMsg], input := [], isTyping := True\<rparr>
        in case chatInstance st of
             None \<Rightarrow>
               (let chat = chats_create rt amb in
                w\<lparr>app := st1\<lparr>chatInstance := Some chat\<rparr>,
                  calls := calls w @ [ChatsCreate chat, SendMessage chat (input st)],
                  chatInFlight := Suc (chatInFlight w)\<rparr>)
           | Some chat \<Rightarrow>
               w\<lparr>app := st1,
                 calls := calls w @ [SendMessage chat (input st)],
                 chatInFlight := Suc (chatInFlight w)\<rparr>)"

text \<open>
  \<^verbatim>\<open>handleChat\<close> from its \<^verbatim>\<open>await\<close> on: the reply appended by a functional update, the
  \<^verbatim>\<open>catch\<close> clause that logs, and \<^verbatim>\<open>setIsTyping(false)\<close> in the \<^verbatim>\<open>finally\<close> clause.
\<close>

definition handleChat_try ::
  "GenerateContentResponse outcome \<Rightarrow> AppState \<Rightarrow> exn + AppState" where
  "handleChat_try settled st =
     (case settled of
        Rejected err \<Rightarrow> Inl err
      | Resolved response \<Rightarrow>
          Inr (st\<lparr>chatMessages :=
                    chatMessages st @ [\<lparr>role = Model, msg_text = response_text response\<rparr>]\<rparr>))"

definition handleChat_resume :: "GenerateContentResponse outcome \<Rightarrow> World \<Rightarrow> exn + World" where
  "handleChat_resume settled w =
     (let caught =
        (case handleChat_try settled (app w) of
           Inr st \<Rightarrow> w\<lparr>app := st\<rparr>
         | Inl err \<Rightarrow> w\<lparr>console := console w @ [ChatEngineFailure err]\<rparr>)
      in Inr (caught\<lparr>app := (app caught)\<lparr>isTyping := False\<rparr>,
                     chatInFlight := chatInFlight w - 1\<rparr>))"

subsection \<open>Category selection and the effect on \<^verbatim>\<open>selectedCategory\<close>\<close>

text \<open>
  The click handler of a category button sets three state cells. The effect
  \<^verbatim>\<open>useEffect(() => { fetchNews(selectedCategory) }, [selectedCategory, fetchNews])\<close>
  runs after a render in which one of its dependencies differs from the render before;
  \<^verbatim>\<open>fetchNews\<close> is a \<^verbatim>\<open>useCallback\<close> with no dependencies and never differs, so the
  effect runs exactly when the selected category has changed. It also runs once when the
  component is mounted.
\<close>

definition selectCategory :: "Browser \<Rightarrow> Ambient \<Rightarrow> jsstring \<Rightarrow> World \<Rightarrow> World" where
  "selectCategory rt amb cat w =
     (let w1 = w\<lparr>app := (app w)\<lparr>selectedCategory := cat, activeView := NewsView,
                                isDrawerOpen := False\<rparr>\<rparr>
      in if selectedCategory (app w) = cat then w1
         else fetchNews_call rt amb (selectedCategory (app w1)) w1)"

definition initialState :: "Ambient \<Rightarrow> AppState" where
  "initialState amb =
     \<lparr>activeView = NewsView, isDrawerOpen = False, selectedCategory = lit ''General'',
      news = [], loading = True, lastSync = now amb, chatMessages = [], input = [],
      isTyping = False, chatInstance = None\<rparr>"

definition mount :: "Browser \<Rightarrow> Ambient \<Rightarrow> World" where
  "mount rt amb =
     (let w = \<lparr>app = initialState amb, calls = [], newsInFlight = 0, chatInFlight = 0,
               console = [], downloads = []\<rparr>
      in fetchNews_call rt amb (selectedCategory (app w)) w)"

subsection \<open>\<^verbatim>\<open>exportCSV\<close>\<close>

definition str :: "jsstring \<Rightarrow> propval option" where
  "str s = Some (Parsed (JStr s))"

definition exportCSV_row :: "jsobject \<Rightarrow> propval option list" where
  "exportCSV_row n =
     [str ([0x22] @ ToString (get_prop n (lit ''title'')) @ [0x22]),
      get_prop n (lit ''category''),
      str (if ToBoolean (get_prop n (lit ''isVerified'')) then lit ''YES'' else lit ''NO''),
      get_prop n (lit ''timestamp''),
      get_prop n (lit ''url'')]"

definition exportCSV_csv :: "jsobject list \<Rightarrow> jsstring" where
  "exportCSV_csv items =
     join [0x0A]
       (map (array_join (lit '',''))
          ([str (lit ''Title''), str (lit ''Category''), str (lit ''Verified''), str (lit ''Time''),
            str (lit ''URL'')]
           # map exportCSV_row items))"

definition exportCSV :: "Ambient \<Rightarrow> World \<Rightarrow> World" where
  "exportCSV amb w =
     w\<lparr>downloads := downloads w @
        [\<lparr>download = lit ''MrDaniel_Report_'' @ toString_int (now amb) @ lit ''.csv'',
          blob_parts = exportCSV_csv (news (app w)),
          blob_type = lit ''text/csv''\<rparr>]\<rparr>"

subsection \<open>The component as a transition system\<close>

text \<open>
  What can happen to the mounted component: the user picks a category, presses the refresh
  button, edits the chat input, submits it (button or Enter key) or exports the report, and
  the provider settles a pending call. A settlement can only happen to a call that is in
  flight; with none in flight the event changes nothing. Every event comes with the clock
  and the language read while it is handled.
\<close>

definition setInput :: "jsstring \<Rightarrow> World \<Rightarrow> World" where
  "setInput s w = w\<lparr>app := (app w)\<lparr>input := s\<rparr>\<rparr>"

datatype event =
    SelectCategory jsstring
  | Refresh
  | NewsSettled "GenerateContentResponse outcome"
  | SetInput jsstring
  | Submit
  | ChatSettled "GenerateContentResponse outcome"
  | ExportCSV

fun step :: "Browser \<Rightarrow> World \<Rightarrow> Ambient \<times> event \<Rightarrow> exn + World" where
  "step rt w (amb, SelectCategory cat) = Inr (selectCategory rt amb cat w)"
| "step rt w (amb, Refresh) = Inr (fetchNews_call rt amb (selectedCategory (app w)) w)"
| "step rt w (amb, NewsSettled settled) =
     (if newsInFlight w = 0 then Inr w else fetchNews_resume rt amb settled w)"
| "step rt w (amb, SetInput s) = Inr (setInput s w)"
| "step rt w (amb, Submit) = Inr (handleChat_call rt amb w)"
| "step rt w (amb, ChatSettled settled) =
     (if chatInFlight w = 0 then Inr w else handleChat_resume settled w)"
| "step rt w (amb, ExportCSV) = Inr (exportCSV amb w)"

fun run :: "Browser \<Rightarrow> World \<Rightarrow> (Ambient \<times> event) list \<Rightarrow> exn + World" where
  "run rt w [] = Inr w"
| "run rt w (e # es) = (case step rt w e of Inl err \<Rightarrow> Inl err | Inr w' \<Rightarrow> run rt w' es)"

subsection \<open>Notions used to state the properties\<close>

text \<open>The roles of a transcript go user, model, user, model, and so on.\<close>

fun alternating :: "ChatMessage list \<Rightarrow> bool" where
  "alternating [] = True"
| "alternating [m] = (role m = User)"
| "alternating (m # r # ms) = (role m = User \<and> role r = Model \<and> alternating ms)"

text \<open>The messages passed to \<^verbatim>\<open>sendMessage\<close> so far, and the texts of the user's entries.\<close>

definition sent_messages :: "World \<Rightarrow> jsstring list" where
  "sent_messages w = map message (filter is_SendMessage (calls w))"

definition user_texts :: "ChatMessage list \<Rightarrow> jsstring option list" where
  "user_texts ms = map msg_text (filter (\<lambda>m. role m = User) ms)"

fun is_chat_failure :: "Ambient \<times> event \<Rightarrow> bool" where
  "is_chat_failure (amb, ChatSettled (Rejected err)) = True"
| "is_chat_failure (amb, e) = False"

text \<open>
  A successful chat turn: the user types \<open>m\<close> and submits it, and the provider resolves the
  call with \<open>response\<close>. Its two transcript entries.
\<close>

fun turn_events ::
  "Ambient \<times> jsstring \<times> Ambient \<times> GenerateContentResponse \<Rightarrow> (Ambient \<times> event) list" where
  "turn_events (amb, m, amb', response) =
     [(amb, SetInput m), (amb, Submit), (amb', ChatSettled (Resolved response))]"

fun turn_entries ::
  "Ambient \<times> jsstring \<times> Ambient \<times> GenerateContentResponse \<Rightarrow> ChatMessage list" where
  "turn_entries (amb, m, amb', response) =
     [\<lparr>role = User, msg_text = Some m\<rparr>, \<lparr>role = Model, msg_text = response_text response\<rparr>]"

text \<open>
  What holds of the chat state in every state the component can reach: the typing flag is
  set exactly while one call is in flight, the session in the ref is the one every
  \<^verbatim>\<open>chats.create\<close> and \<^verbatim>\<open>sendMessage\<close> so far was about, and the ref is empty exactly
  as long as no message has been sent.
\<close>

definition chat_inv :: "World \<Rightarrow> bool" where
  "chat_inv w =
     (chatInFlight w = (if isTyping (app w) then 1 else 0) \<and>
      map created (filter is_ChatsCreate (calls w)) =
        (case chatInstance (app w) of None \<Rightarrow> [] | Some chat \<Rightarrow> [chat]) \<and>
      (\<forall>c \<in> set (filter is_SendMessage (calls w)). chatInstance (app w) = Some (session c)) \<and>
      (chatInstance (app w) = None \<longleftrightarrow> sent_messages w = []))"

text \<open>
  What holds of the transcript as long as no chat call has failed: the roles alternate, every
  message sent has its user entry, in the order sent, and every entry but the one of a call
  still in flight has its reply.
\<close>

definition transcript_inv :: "World \<Rightarrow> bool" where
  "transcript_inv w =
     (alternating (chatMessages (app w)) \<and>
      length (chatMessages (app w)) + (if isTyping (app w) then 1 else 0) =
        2 * length (sent_messages w) \<and>
      user_texts (chatMessages (app w)) = map Some (sent_messages w))"

text \<open>
  \<^verbatim>\<open>interface NewsItem\<close>, and the object that a value of this type is at run time. The
  field \<open>item_id\<close> is \<^verbatim>\<open>id\<close> in the source.
\<close>

record NewsItem =
  item_id :: jsstring
  title :: jsstring
  summary :: jsstring
  sources :: "jsstring list"
  url :: jsstring
  timestamp :: jsstring
  category :: jsstring
  isVerified :: bool
  verificationDetails :: jsstring
  groundingSources :: "GroundingChunkWeb list option"

definition item_json :: "NewsItem \<Rightarrow> json" where
  "item_json n =
     JObj [(lit ''id'', JStr (item_id n)), (lit ''title'', JStr (title n)),
           (lit ''summary'', JStr (summary n)), (lit ''sources'', JArr (map JStr (sources n))),
           (lit ''url'', JStr (url n)), (lit ''timestamp'', JStr (timestamp n)),
           (lit ''category'', JStr (category n)), (lit ''isVerified'', JBool (isVerified n)),
           (lit ''verificationDetails'', JStr (verificationDetails n))]"

definition object_of :: "NewsItem \<Rightarrow> jsobject" where
  "object_of n =
     map (\<lambda>(k, v). (k, Parsed v)) (ownProperties (item_json n)) @
     (case groundingSources n of
        None \<Rightarrow> []
      | Some g \<Rightarrow> [(lit ''groundingSources'', Citations g)])"

text \<open>
  An object of the news list has the fields of a \<^verbatim>\<open>NewsItem\<close> that \<^verbatim>\<open>exportCSV\<close> reads,
  with the declared types, whatever else it holds.
\<close>

definition has_fields :: "jsobject \<Rightarrow> NewsItem \<Rightarrow> bool" where
  "has_fields obj n =
     (get_prop obj (lit ''title'') = Some (Parsed (JStr (title n))) \<and>
      get_prop obj (lit ''category'') = Some (Parsed (JStr (category n))) \<and>
      get_prop obj (lit ''isVerified'') = Some (Parsed (JBool (isVerified n))) \<and>
      get_prop obj (lit ''timestamp'') = Some (Parsed (JStr (timestamp n))) \<and>
      get_prop obj (lit ''url'') = Some (Parsed (JStr (url n))))"

text \<open>
  The report as the specification words it: the header row, then one row per item with the
  title in double quotes, the category, \<open>YES\<close> or \<open>NO\<close>, the timestamp and the URL; rows
  are separated by line feeds, fields by commas.
\<close>

definition spec_csv_row :: "NewsItem \<Rightarrow> jsstring" where
  "spec_csv_row n =
     [0x22] @ title n @ [0x22] @ lit '','' @ category n @ lit '','' @
     (if isVerified n then lit ''YES'' else lit ''NO'') @ lit '','' @ timestamp n @ lit '','' @ url n"

fun spec_csv_lines :: "jsstring list \<Rightarrow> jsstring" where
  "spec_csv_lines [] = []"
| "spec_csv_lines [l] = l"
| "spec_csv_lines (l # ls) = l @ [0x0A] @ spec_csv_lines ls"

definition spec_csv :: "NewsItem list \<Rightarrow> jsstring" where
  "spec_csv items = spec_csv_lines (lit ''Title,Category,Verified,Time,URL'' # map spec_csv_row items)"

text \<open>The number that a string of decimal digits denotes.\<close>

definition decimal_value :: "jsstring \<Rightarrow> nat" where
  "decimal_value s = foldl (\<lambda>acc c. 10 * acc + (unat c - 48)) 0 s"

definition is_digit :: "code_unit \<Rightarrow> bool" where
  "is_digit c = (0x30 \<le> c \<and> c \<le> 0x39)"

subsection \<open>A concrete runtime and concrete inputs\<close>

text \<open>
  The built-ins at the arguments used in the examples below: what \<^verbatim>\<open>JSON.parse\<close> gives
  for three texts and throws for a fourth, and the three date formats of the first two
  minutes of the epoch in the locale \<^verbatim>\<open>en-US\<close>, time zone UTC.
\<close>

definition quoted :: "jsstring \<Rightarrow> jsstring" where
  "quoted s = [0x22] @ s @ [0x22]"

definition three_items_text :: jsstring where
  "three_items_text =
     lit ''[{'' @ quoted (lit ''id'') @ lit '':'' @ quoted (lit ''1'') @ lit ''},{'' @
     quoted (lit ''id'') @ lit '':'' @ quoted (lit ''2'') @ lit ''},{'' @
     quoted (lit ''id'') @ lit '':'' @ quoted (lit ''3'') @ lit ''}]''"

definition demo_parse :: "jsstring \<Rightarrow> json option" where
  "demo_parse s =
     (if s = lit ''[]'' then Some (JArr [])
      else if s = three_items_text then
        Some (JArr [JObj [(lit ''id'', JStr (lit ''1''))], JObj [(lit ''id'', JStr (lit ''2''))],
                    JObj [(lit ''id'', JStr (lit ''3''))]])
      else if s = lit ''{}'' then Some (JObj [])
      else None)"

definition demo_browser :: Browser where
  "demo_browser =
     \<lparr>JSON_parse = demo_parse,
      toISOString = (\<lambda>t. if t = 0 then lit ''1970-01-01T00:00:00.000Z''
                           else lit ''1970-01-01T00:01:00.000Z''),
      toLocaleDateString = (\<lambda>l t. lit ''Thursday, January 1, 1970''),
      toLocaleTimeString = (\<lambda>l t. if t = 0 then lit ''12:00:00 AM'' else lit ''12:01:00 AM'')\<rparr>"

definition amb0 :: Ambient where
  "amb0 = \<lparr>now = 0, language = lit ''en-US''\<rparr>"

definition amb1 :: Ambient where
  "amb1 = \<lparr>now = 60000, language = lit ''en-US''\<rparr>"

definition citation_A :: GroundingChunkWeb where
  "citation_A = \<lparr>uri = Some (lit ''https://a.example''), web_title = Some (lit ''A'')\<rparr>"

definition response_with :: "GroundingChunkWeb list \<Rightarrow> jsstring option \<Rightarrow> GenerateContentResponse" where
  "response_with ws t =
     \<lparr>candidates = Some [\<lparr>groundingMetadata =
                             Some \<lparr>groundingChunks = Some (map (\<lambda>w. \<lparr>web = Some w\<rparr>) ws)\<rparr>\<rparr>],
      response_text = t\<rparr>"

text \<open>A state of the component with a given news list.\<close>

definition with_news :: "jsobject list \<Rightarrow> World \<Rightarrow> World" where
  "with_news items w = w\<lparr>app := (app w)\<lparr>news := items\<rparr>\<rparr>"

definition demo_item :: NewsItem where
  "demo_item =
     \<lparr>item_id = lit ''1'', title = lit ''Rates held'', summary = lit ''The bank held rates.'',
      sources = [lit ''Reuters'', lit ''AP''], url = lit ''https://a.example/1'',
      timestamp = lit ''2026-01-01T00:00:00Z'', category = lit ''Econom'' @ [0xED] @ lit ''a'',
      isVerified = True, verificationDetails = lit ''Two outlets.'',
      groundingSources = Some [citation_A]\<rparr>"

section \<open>Properties\<close>

subsection \<open>White space and the guard of \<^verbatim>\<open>handleChat\<close>\<close>

lemma all_dropWhile: "(\<forall>c\<in>set (dropWhile P s). P c) \<longleftrightarrow> (\<forall>c\<in>set s. P c)"
proof
  assume a: "\<forall>c\<in>set (dropWhile P s). P c"
  have "dropWhile P s = []"
  proof (rule ccontr)
    assume "dropWhile P s \<noteq> []"
    then have "\<not> P (hd (dropWhile P s))" "hd (dropWhile P s) \<in> set (dropWhile P s)"
      by (simp_all add: hd_dropWhile)
    with a show False by blast
  qed
  then show "\<forall>c\<in>set s. P c" by (simp add: dropWhile_eq_Nil_conv)
next
  assume "\<forall>c\<in>set s. P c"
  then show "\<forall>c\<in>set (dropWhile P s). P c" by (meson set_dropWhileD)
qed

lemma trim_eq_Nil_iff: "trim s = [] \<longleftrightarrow> (\<forall>c\<in>set s. isWhiteSpace c)"
proof -
  have "trim s = [] \<longleftrightarrow> (\<forall>c\<in>set (rev (dropWhile isWhiteSpace s)). isWhiteSpace c)"
    by (simp add: trim_def dropWhile_eq_Nil_conv)
  also have "\<dots> \<longleftrightarrow> (\<forall>c\<in>set s. isWhiteSpace c)"
    using all_dropWhile [of isWhiteSpace s] by simp
  finally show ?thesis .
qed

lemma handleChat_call_blank: "trim (input (app w)) = [] \<Longrightarrow> handleChat_call rt amb w = w"
  by (simp add: handleChat_call_def)

lemma handleChat_call_busy: "isTyping (app w) \<Longrightarrow> handleChat_call rt amb w = w"
  by (simp add: handleChat_call_def)

lemma handleChat_call_accepted:
  assumes "trim (input (app w)) \<noteq> []" "\<not> isTyping (app w)"
  shows "chatMessages (app (handleChat_call rt amb w)) =
           chatMessages (app w) @ [\<lparr>role = User, msg_text = Some (input (app w))\<rparr>]"
    and "sent_messages (handleChat_call rt amb w) = sent_messages w @ [input (app w)]"
    and "chatInFlight (handleChat_call rt amb w) = Suc (chatInFlight w)"
    and "console (handleChat_call rt amb w) = console w"
  using assms
  by (auto simp: handleChat_call_def sent_messages_def Let_def split: option.splits)

lemma handleChat_call_first:
  assumes "trim (input (app w)) \<noteq> []" "\<not> isTyping (app w)" "chatInstance (app w) = None"
  shows "chatInstance (app (handleChat_call rt amb w)) = Some (chats_create rt amb)"
    and "calls (handleChat_call rt amb w) =
           calls w @ [ChatsCreate (chats_create rt amb),
                      SendMessage (chats_create rt amb) (input (app w))]"
  using assms by (simp_all add: handleChat_call_def Let_def)

lemma handleChat_call_later:
  assumes "trim (input (app w)) \<noteq> []" "\<not> isTyping (app w)" "chatInstance (app w) = Some chat"
  shows "chatInstance (app (handleChat_call rt amb w)) = Some chat"
    and "calls (handleChat_call rt amb w) = calls w @ [SendMessage chat (input (app w))]"
  using assms by (simp_all add: handleChat_call_def Let_def)

subsection \<open>Handlers return normally\<close>

lemma fetchNews_resume_Inr: "\<exists>w'. fetchNews_resume rt amb settled w = Inr w'"
  by (simp add: fetchNews_resume_def Let_def)

lemma handleChat_resume_Inr: "\<exists>w'. handleChat_resume settled w = Inr w'"
  by (simp add: handleChat_resume_def Let_def)

lemma step_Inr: "\<exists>w'. step rt w e = Inr w'"
proof (cases e)
  case (Pair amb ev)
  then show ?thesis
    by (cases ev) (simp_all add: fetchNews_resume_Inr handleChat_resume_Inr)
qed

lemma run_Inr: "\<exists>w'. run rt w es = Inr w'"
proof (induction es arbitrary: w)
  case Nil
  then show ?case by simp
next
  case (Cons e es)
  obtain w1 where "step rt w e = Inr w1" using step_Inr by blast
  then show ?case using Cons.IH [of w1] by simp
qed

lemma run_append:
  "run rt w (es @ es') = (case run rt w es of Inl err \<Rightarrow> Inl err | Inr w' \<Rightarrow> run rt w' es')"
  by (induction es arbitrary: w) (auto split: sum.splits)

lemma run_invariant:
  assumes step: "\<And>w e w'. P w \<Longrightarrow> step rt w e = Inr w' \<Longrightarrow> e \<in> set es \<Longrightarrow> P w'"
    and "P w" and "run rt w es = Inr w'"
  shows "P w'"
  using assms
proof (induction es arbitrary: w)
  case Nil
  then show ?case by simp
next
  case (Cons e es)
  from Cons.prems(3) obtain w1 where s: "step rt w e = Inr w1" and r: "run rt w1 es = Inr w'"
    by (auto split: sum.splits)
  have "P w1" using Cons.prems(1) [OF Cons.prems(2) s] by simp
  moreover have "\<And>w e w'. P w \<Longrightarrow> step rt w e = Inr w' \<Longrightarrow> e \<in> set es \<Longrightarrow> P w'"
    using Cons.prems(1) by simp
  ultimately show ?case using Cons.IH r by blast
qed

lemma handleChat_resume_settles:
  "\<exists>w'. handleChat_resume settled w = Inr w' \<and> \<not> isTyping (app w') \<and> calls w' = calls w"
  by (auto simp: handleChat_resume_def handleChat_try_def Let_def split: sum.splits outcome.splits)

lemma handleChat_resume_rejected:
  "handleChat_resume (Rejected err) w =
     Inr (w\<lparr>app := (app w)\<lparr>isTyping := False\<rparr>, console := console w @ [ChatEngineFailure err],
            chatInFlight := chatInFlight w - 1\<rparr>)"
  by (simp add: handleChat_resume_def handleChat_try_def Let_def)

subsection \<open>What \<^verbatim>\<open>fetchNews\<close> changes\<close>

lemma fetchNews_try_frame:
  "fetchNews_try rt amb settled st = Inr st' \<Longrightarrow>
     st' = st\<lparr>news := news st', lastSync := lastSync st'\<rparr>"
  by (auto simp: fetchNews_try_def Let_def split: outcome.splits option.splits json.splits)

lemma fetchNews_resume_frame:
  assumes "fetchNews_resume rt amb settled w = Inr w'"
  shows "calls w' = calls w \<and> chatInFlight w' = chatInFlight w \<and> downloads w' = downloads w \<and>
         isTyping (app w') = isTyping (app w) \<and> chatInstance (app w') = chatInstance (app w) \<and>
         chatMessages (app w') = chatMessages (app w) \<and> input (app w') = input (app w) \<and>
         selectedCategory (app w') = selectedCategory (app w)"
proof (cases "fetchNews_try rt amb settled (app w)")
  case (Inl err)
  with assms show ?thesis by (auto simp: fetchNews_resume_def Let_def)
next
  case (Inr st)
  from fetchNews_try_frame [OF Inr] obtain n l where "st = (app w)\<lparr>news := n, lastSync := l\<rparr>"
    by blast
  with Inr assms show ?thesis by (auto simp: fetchNews_resume_def Let_def)
qed

lemma fetchNews_try_failure:
  "settled = Rejected err \<or>
   (\<exists>response. settled = Resolved response \<and> JSON_parse rt (text_or_fallback response) = None)
   \<Longrightarrow> \<exists>e. fetchNews_try rt amb settled st = Inl e"
  by (auto simp: fetchNews_try_def Let_def)

lemma fetchNews_resume_caught:
  "fetchNews_try rt amb settled (app w) = Inl e \<Longrightarrow>
   fetchNews_resume rt amb settled w =
     Inr (w\<lparr>app := (app w)\<lparr>loading := False\<rparr>, console := console w @ [NewsEngineFailure e],
            newsInFlight := newsInFlight w - 1\<rparr>)"
  by (simp add: fetchNews_resume_def Let_def)

lemma fetchNews_try_success:
  "JSON_parse rt (text_or_fallback response) = Some (JArr items) \<Longrightarrow>
   fetchNews_try rt amb (Resolved response) st =
     Inr (st\<lparr>news := map (annotate (grounding_of response)) items, lastSync := now amb\<rparr>)"
  by (simp add: fetchNews_try_def Let_def)

lemma fetchNews_try_Inr_iff:
  "fetchNews_try rt amb settled st = Inr st' \<longleftrightarrow>
   (\<exists>response items. settled = Resolved response \<and>
      JSON_parse rt (text_or_fallback response) = Some (JArr items) \<and>
      st' = st\<lparr>news := map (annotate (grounding_of response)) items, lastSync := now amb\<rparr>)"
  by (auto simp: fetchNews_try_def Let_def split: outcome.splits option.splits json.splits)

lemma fetchNews_resume_success:
  "JSON_parse rt (text_or_fallback response) = Some (JArr items) \<Longrightarrow>
   fetchNews_resume rt amb (Resolved response) w =
     Inr (w\<lparr>app := (app w)\<lparr>news := map (annotate (grounding_of response)) items,
                           lastSync := now amb, loading := False\<rparr>,
            newsInFlight := newsInFlight w - 1\<rparr>)"
  by (simp add: fetchNews_resume_def fetchNews_try_success Let_def)

lemma step_lastSync:
  assumes "step rt w e = Inr w'" "lastSync (app w') \<noteq> lastSync (app w)"
  shows "\<exists>amb response items. e = (amb, NewsSettled (Resolved response)) \<and>
           JSON_parse rt (text_or_fallback response) = Some (JArr items)"
proof (cases e)
  case (Pair amb ev)
  show ?thesis
  proof (cases ev)
    case (NewsSettled settled)
    show ?thesis
    proof (cases "fetchNews_try rt amb settled (app w)")
      case (Inl err)
      with NewsSettled Pair assms show ?thesis
        by (auto simp: fetchNews_resume_caught split: if_splits)
    next
      case (Inr st)
      then show ?thesis using NewsSettled Pair by (auto simp: fetchNews_try_Inr_iff)
    qed
  next
    case (ChatSettled settled)
    with Pair assms show ?thesis
      by (auto simp: handleChat_resume_def handleChat_try_def Let_def
          split: if_splits outcome.splits)
  next
    case Submit
    with Pair assms show ?thesis
      by (auto simp: handleChat_call_def Let_def split: option.splits if_splits)
  qed (use Pair assms in \<open>auto simp: selectCategory_def fetchNews_call_def setInput_def exportCSV_def Let_def split: if_splits\<close>)
qed





subsection \<open>The chat state in every reachable state\<close>

lemma mount_idle:
  "\<not> isTyping (app (mount rt amb))" "chatInFlight (mount rt amb) = 0"
  "chatMessages (app (mount rt amb)) = []" "chatInstance (app (mount rt amb)) = None"
  by (simp_all add: mount_def fetchNews_call_def initialState_def Let_def)

lemma chat_inv_fetchNews_call: "chat_inv w \<Longrightarrow> chat_inv (fetchNews_call rt amb cat w)"
  by (simp add: chat_inv_def sent_messages_def fetchNews_call_def)

lemma chat_inv_selectCategory: "chat_inv w \<Longrightarrow> chat_inv (selectCategory rt amb cat w)"
  by (auto simp: chat_inv_def sent_messages_def selectCategory_def fetchNews_call_def Let_def)

lemma chat_inv_fetchNews_resume:
  "chat_inv w \<Longrightarrow> fetchNews_resume rt amb settled w = Inr w' \<Longrightarrow> chat_inv w'"
  using fetchNews_resume_frame [of rt amb settled w w'] by (simp add: chat_inv_def sent_messages_def)

lemma chat_inv_handleChat_call: "chat_inv w \<Longrightarrow> chat_inv (handleChat_call rt amb w)"
  by (auto simp: chat_inv_def sent_messages_def handleChat_call_def Let_def split: option.splits)

lemma chat_inv_handleChat_resume:
  "chat_inv w \<Longrightarrow> handleChat_resume settled w = Inr w' \<Longrightarrow> chat_inv w'"
  by (auto simp: chat_inv_def sent_messages_def handleChat_resume_def handleChat_try_def Let_def
      split: sum.splits outcome.splits if_splits)

lemma chat_inv_step: "chat_inv w \<Longrightarrow> step rt w e = Inr w' \<Longrightarrow> chat_inv w'"
proof (cases e)
  case (Pair amb ev)
  assume inv: "chat_inv w" and st: "step rt w e = Inr w'"
  show ?thesis
  proof (cases ev)
    case (SelectCategory cat)
    with Pair st inv show ?thesis using chat_inv_selectCategory by auto
  next
    case Refresh
    with Pair st inv show ?thesis using chat_inv_fetchNews_call by auto
  next
    case (NewsSettled settled)
    with Pair st inv show ?thesis
      using chat_inv_fetchNews_resume by (auto split: if_splits)
  next
    case (SetInput s)
    with Pair st inv show ?thesis by (auto simp: chat_inv_def sent_messages_def setInput_def)
  next
    case Submit
    with Pair st inv show ?thesis using chat_inv_handleChat_call by auto
  next
    case (ChatSettled settled)
    with Pair st inv show ?thesis
      using chat_inv_handleChat_resume by (auto split: if_splits)
  next
    case ExportCSV
    with Pair st inv show ?thesis by (auto simp: chat_inv_def sent_messages_def exportCSV_def)
  qed
qed

lemma chat_inv_mount: "chat_inv (mount rt amb)"
  by (simp add: chat_inv_def sent_messages_def mount_def fetchNews_call_def initialState_def Let_def)

lemma chat_inv_run: "chat_inv w \<Longrightarrow> run rt w es = Inr w' \<Longrightarrow> chat_inv w'"
  using run_invariant [of chat_inv rt es w w'] chat_inv_step by blast

lemma chatInstance_step:
  assumes "chatInstance (app w) = Some chat" "step rt w e = Inr w'"
  shows "chatInstance (app w') = Some chat"
proof (cases e)
  case (Pair amb ev)
  show ?thesis
  proof (cases ev)
    case (NewsSettled settled)
    with Pair assms show ?thesis
      using fetchNews_resume_frame [of rt amb settled w w'] by (auto split: if_splits)
  next
    case (ChatSettled settled)
    with Pair assms show ?thesis
      by (auto simp: handleChat_resume_def handleChat_try_def Let_def
          split: if_splits outcome.splits)
  next
    case Submit
    with Pair assms show ?thesis
      by (auto simp: handleChat_call_def Let_def split: option.splits)
  qed (use Pair assms in \<open>auto simp: selectCategory_def fetchNews_call_def setInput_def exportCSV_def Let_def\<close>)
qed

lemma chatInstance_run:
  "chatInstance (app w) = Some chat \<Longrightarrow> run rt w es = Inr w' \<Longrightarrow> chatInstance (app w') = Some chat"
  using run_invariant [of "\<lambda>w. chatInstance (app w) = Some chat" rt es w w'] chatInstance_step
  by blast

lemma length_created_le:
  "map created (filter is_ChatsCreate cs) = (case x of None \<Rightarrow> [] | Some chat \<Rightarrow> [chat]) \<Longrightarrow>
   length (filter is_ChatsCreate cs) \<le> 1"
proof -
  assume a: "map created (filter is_ChatsCreate cs) = (case x of None \<Rightarrow> [] | Some chat \<Rightarrow> [chat])"
  have "length (filter is_ChatsCreate cs) = length (map created (filter is_ChatsCreate cs))"
    by simp
  also have "\<dots> \<le> 1" unfolding a by (cases x) simp_all
  finally show ?thesis .
qed

subsection \<open>The transcript\<close>

lemma alternating_snoc_user:
  "alternating ms \<Longrightarrow> even (length ms) \<Longrightarrow> role m = User \<Longrightarrow> alternating (ms @ [m])"
  by (induction ms rule: alternating.induct) simp_all

lemma alternating_snoc_model:
  "alternating ms \<Longrightarrow> odd (length ms) \<Longrightarrow> role m = Model \<Longrightarrow> alternating (ms @ [m])"
  by (induction ms rule: alternating.induct) simp_all

lemma transcript_inv_mount: "transcript_inv (mount rt amb)"
  by (simp add: transcript_inv_def sent_messages_def user_texts_def mount_def fetchNews_call_def
      initialState_def Let_def)

lemma transcript_inv_fetchNews_call:
  "transcript_inv w \<Longrightarrow> transcript_inv (fetchNews_call rt amb cat w)"
  by (simp add: transcript_inv_def sent_messages_def fetchNews_call_def)

lemma transcript_inv_selectCategory:
  "transcript_inv w \<Longrightarrow> transcript_inv (selectCategory rt amb cat w)"
  by (auto simp: transcript_inv_def sent_messages_def selectCategory_def fetchNews_call_def Let_def)

lemma transcript_inv_fetchNews_resume:
  "transcript_inv w \<Longrightarrow> fetchNews_resume rt amb settled w = Inr w' \<Longrightarrow> transcript_inv w'"
  using fetchNews_resume_frame [of rt amb settled w w']
  by (simp add: transcript_inv_def sent_messages_def)

lemma transcript_inv_handleChat_call:
  assumes "transcript_inv w"
  shows "transcript_inv (handleChat_call rt amb w)"
proof (cases "trim (input (app w)) = [] \<or> isTyping (app w)")
  case True
  then show ?thesis using assms by (auto simp: handleChat_call_def)
next
  case False
  with assms have ev: "even (length (chatMessages (app w)))"
    by (simp add: transcript_inv_def)
  have alt: "alternating (chatMessages (app w) @ [\<lparr>role = User, msg_text = Some (input (app w))\<rparr>])"
    using assms ev by (intro alternating_snoc_user) (simp_all add: transcript_inv_def)
  show ?thesis using False assms alt
    by (auto simp: transcript_inv_def sent_messages_def user_texts_def handleChat_call_def Let_def
        split: option.splits)
qed

lemma transcript_inv_handleChat_resume:
  assumes "transcript_inv w" "isTyping (app w)"
  shows "\<exists>w'. handleChat_resume (Resolved response) w = Inr w' \<and> transcript_inv w'"
proof -
  from assms have "Suc (length (chatMessages (app w))) = 2 * length (sent_messages w)"
    by (simp add: transcript_inv_def)
  then have "even (Suc (length (chatMessages (app w))))" by simp
  then have od: "odd (length (chatMessages (app w)))" by simp
  have alt: "alternating (chatMessages (app w) @ [\<lparr>role = Model, msg_text = response_text response\<rparr>])"
    using assms od by (intro alternating_snoc_model) (simp_all add: transcript_inv_def)
  show ?thesis using assms alt
    by (auto simp: transcript_inv_def sent_messages_def user_texts_def handleChat_resume_def
        handleChat_try_def Let_def)
qed

lemma transcript_inv_step:
  assumes "chat_inv w" "transcript_inv w" "\<not> is_chat_failure e" "step rt w e = Inr w'"
  shows "transcript_inv w'"
proof (cases e)
  case (Pair amb ev)
  show ?thesis
  proof (cases ev)
    case (SelectCategory cat)
    with Pair assms show ?thesis using transcript_inv_selectCategory by auto
  next
    case Refresh
    with Pair assms show ?thesis using transcript_inv_fetchNews_call by auto
  next
    case (NewsSettled settled)
    with Pair assms show ?thesis using transcript_inv_fetchNews_resume by (auto split: if_splits)
  next
    case (SetInput s)
    with Pair assms show ?thesis
      by (auto simp: transcript_inv_def sent_messages_def setInput_def)
  next
    case Submit
    with Pair assms show ?thesis using transcript_inv_handleChat_call by auto
  next
    case (ChatSettled settled)
    show ?thesis
    proof (cases "chatInFlight w = 0")
      case True
      with ChatSettled Pair assms show ?thesis by simp
    next
      case False
      with assms(1) have typing: "isTyping (app w)" by (simp add: chat_inv_def split: if_splits)
      from ChatSettled Pair assms(3) obtain response where "settled = Resolved response"
        by (cases settled) simp_all
      with transcript_inv_handleChat_resume [OF assms(2) typing, of response]
        ChatSettled Pair False assms(4)
      show ?thesis by auto
    qed
  next
    case ExportCSV
    with Pair assms show ?thesis
      by (auto simp: transcript_inv_def sent_messages_def exportCSV_def)
  qed
qed

lemma transcript_inv_run:
  assumes "chat_inv w" "transcript_inv w" "\<forall>e\<in>set es. \<not> is_chat_failure e" "run rt w es = Inr w'"
  shows "transcript_inv w'"
  using assms
proof (induction es arbitrary: w)
  case Nil
  then show ?case by simp
next
  case (Cons e es)
  from Cons.prems(4) obtain w1 where s: "step rt w e = Inr w1" and r: "run rt w1 es = Inr w'"
    by (auto split: sum.splits)
  have "chat_inv w1" using chat_inv_step [OF Cons.prems(1) s] .
  moreover have "transcript_inv w1"
    using transcript_inv_step [OF Cons.prems(1,2) _ s] Cons.prems(3) by simp
  ultimately show ?case using Cons.IH [of w1] Cons.prems(3) r by simp
qed

lemma step_transcript_prefix:
  "step rt w e = Inr w' \<Longrightarrow> prefix (chatMessages (app w)) (chatMessages (app w'))"
proof (cases e)
  case (Pair amb ev)
  assume st: "step rt w e = Inr w'"
  show ?thesis
  proof (cases ev)
    case (NewsSettled settled)
    with Pair st show ?thesis
      using fetchNews_resume_frame [of rt amb settled w w'] by (auto split: if_splits)
  next
    case (ChatSettled settled)
    with Pair st show ?thesis
      by (auto simp: handleChat_resume_def handleChat_try_def Let_def
          split: if_splits outcome.splits)
  next
    case Submit
    with Pair st show ?thesis
      by (auto simp: handleChat_call_def Let_def split: option.splits)
  qed (use Pair st in \<open>auto simp: selectCategory_def fetchNews_call_def setInput_def exportCSV_def Let_def\<close>)
qed

lemma run_transcript_prefix:
  "run rt w es = Inr w' \<Longrightarrow> prefix (chatMessages (app w)) (chatMessages (app w'))"
proof (induction es arbitrary: w)
  case Nil
  then show ?case by simp
next
  case (Cons e es)
  from Cons.prems obtain w1 where s: "step rt w e = Inr w1" and r: "run rt w1 es = Inr w'"
    by (auto split: sum.splits)
  from step_transcript_prefix [OF s] Cons.IH [OF r] show ?case
    using prefix_order.trans by blast
qed

lemma successful_turn:
  assumes "\<not> isTyping (app w)" "chatInFlight w = 0" "trim m \<noteq> []"
  shows "\<exists>w'. run rt w (turn_events (amb, m, amb', response)) = Inr w' \<and>
           chatMessages (app w') = chatMessages (app w) @ turn_entries (amb, m, amb', response) \<and>
           \<not> isTyping (app w') \<and> chatInFlight w' = 0"
  using assms
  by (auto simp: setInput_def handleChat_call_def handleChat_resume_def handleChat_try_def Let_def
      split: option.splits)

lemma successful_turns:
  assumes "\<not> isTyping (app w)" "chatInFlight w = 0" "\<forall>(amb, m, amb', response)\<in>set ts. trim m \<noteq> []"
  shows "\<exists>w'. run rt w (concat (map turn_events ts)) = Inr w' \<and>
           chatMessages (app w') = chatMessages (app w) @ concat (map turn_entries ts) \<and>
           \<not> isTyping (app w') \<and> chatInFlight w' = 0"
  using assms
proof (induction ts arbitrary: w)
  case Nil
  then show ?case by simp
next
  case (Cons t ts)
  obtain amb m amb' response where t: "t = (amb, m, amb', response)" by (cases t) auto
  with Cons.prems have "trim m \<noteq> []" by simp
  from successful_turn [OF Cons.prems(1,2) this, of rt amb amb' response]
  obtain w1 where r1: "run rt w (turn_events t) = Inr w1"
    and m1: "chatMessages (app w1) = chatMessages (app w) @ turn_entries t"
    and i1: "\<not> isTyping (app w1)" "chatInFlight w1 = 0"
    using t by blast
  from Cons.IH [OF i1] Cons.prems(3)
  obtain w' where r2: "run rt w1 (concat (map turn_events ts)) = Inr w'"
    and m2: "chatMessages (app w') = chatMessages (app w1) @ concat (map turn_entries ts)"
    and i2: "\<not> isTyping (app w')" "chatInFlight w' = 0"
    by auto
  have "run rt w (concat (map turn_events (t # ts))) = Inr w'"
    using r1 r2 by (simp add: run_append)
  with m1 m2 i2 show ?case by auto
qed

lemma length_turn_entries: "length (concat (map turn_entries ts)) = 2 * length ts"
  by (induction ts) auto

lemma alternating_turn_entries: "alternating (concat (map turn_entries ts))"
  by (induction ts) auto

subsection \<open>Texts that contain their parameters\<close>

lemma sublist_skip: "sublist xs zs \<Longrightarrow> sublist xs (ys @ zs)"
  by (metis append_assoc sublist_def)

lemma prompt_contains_category: "sublist cat (fetchNews_prompt rt amb cat)"
  unfolding fetchNews_prompt_def Let_def
  by (rule sublist_append_rightI | rule sublist_skip)+

lemma systemInstruction_contains_date:
  "sublist (toLocaleDateString rt (language amb) (now amb)) (systemInstruction_text rt amb)"
  unfolding systemInstruction_text_def Let_def temporalContext_def TemporalContext.simps
  by (rule sublist_append_rightI | rule sublist_skip)+

lemma systemInstruction_contains_time:
  "sublist (toLocaleTimeString rt (language amb) (now amb)) (systemInstruction_text rt amb)"
  unfolding systemInstruction_text_def Let_def temporalContext_def TemporalContext.simps
  by (rule sublist_append_rightI | rule sublist_skip)+

lemma systemInstruction_contains_iso:
  "sublist (toISOString rt (now amb)) (systemInstruction_text rt amb)"
  unfolding systemInstruction_text_def Let_def temporalContext_def TemporalContext.simps
  by (rule sublist_append_rightI | rule sublist_skip)+

subsection \<open>Decimal digits and the rows of the report\<close>

lemma unat_digit: "d < 10 \<Longrightarrow> unat (of_nat (48 + d) :: code_unit) = 48 + d"
  by (simp add: unat_of_nat take_bit_nat_eq_self del: of_nat_add)

lemma is_digit_of_nat: "d < 10 \<Longrightarrow> is_digit (of_nat (48 + d))"
  using unat_digit [of d] by (simp add: is_digit_def word_le_nat_alt del: of_nat_add)

lemma digits_are_digits: "\<forall>c\<in>set (digits n). is_digit c"
proof (induction n rule: digits.induct)
  case (1 n)
  show ?case
  proof (cases "n < 10")
    case True
    then show ?thesis using is_digit_of_nat [of n] by (simp del: of_nat_add)
  next
    case False
    have "n mod 10 < 10" by simp
    from is_digit_of_nat [OF this] 1 False show ?thesis
      by (subst digits.simps) (simp del: of_nat_add digits.simps)
  qed
qed

lemma decimal_value_snoc: "decimal_value (s @ [c]) = 10 * decimal_value s + (unat c - 48)"
  by (simp add: decimal_value_def)

lemma decimal_value_digits: "decimal_value (digits n) = n"
proof (induction n rule: digits.induct)
  case (1 n)
  show ?case
  proof (cases "n < 10")
    case True
    then show ?thesis using unat_digit [of n] by (simp add: decimal_value_def del: of_nat_add)
  next
    case False
    have "n mod 10 < 10" by simp
    from unat_digit [OF this] 1 False show ?thesis
      by (subst digits.simps) (simp add: decimal_value_snoc del: of_nat_add digits.simps)
  qed
qed

lemma has_fields_object_of: "has_fields (object_of n) n"
  by (simp add: has_fields_def get_prop_def object_of_def item_json_def lit_def)

lemma has_fields_annotate: "has_fields (annotate g (item_json n)) n"
  by (simp add: has_fields_def get_prop_def annotate_def item_json_def lit_def)

lemma exportCSV_row_has_fields:
  "has_fields obj n \<Longrightarrow> array_join (lit '','') (exportCSV_row obj) = spec_csv_row n"
  by (simp add: has_fields_def array_join_def exportCSV_row_def str_def spec_csv_row_def)

lemma exportCSV_rows_have_fields:
  "list_all2 has_fields objs items \<Longrightarrow>
   map (array_join (lit '','')) (map exportCSV_row objs) = map spec_csv_row items"
  by (induction objs items rule: list_all2_induct) (simp_all add: exportCSV_row_has_fields)

lemma exportCSV_header:
  "array_join (lit '','')
     [str (lit ''Title''), str (lit ''Category''), str (lit ''Verified''), str (lit ''Time''),
      str (lit ''URL'')] = lit ''Title,Category,Verified,Time,URL''"
  by (simp add: array_join_def str_def lit_def)

lemma join_lines: "join [0x0A] ls = spec_csv_lines ls"
  by (induction ls rule: spec_csv_lines.induct) simp_all

lemma exportCSV_csv_has_fields:
  "list_all2 has_fields objs items \<Longrightarrow> exportCSV_csv objs = spec_csv items"
  using exportCSV_rows_have_fields [of objs items]
  by (simp add: exportCSV_csv_def spec_csv_def join_lines exportCSV_header)

subsection \<open>The concrete runtime\<close>

lemma demo_parse_not_json: "JSON_parse demo_browser (lit ''Service unavailable'') = None"
  by (simp add: demo_browser_def demo_parse_def three_items_text_def quoted_def lit_def)

lemma demo_parse_empty: "JSON_parse demo_browser (lit ''[]'') = Some (JArr [])"
  by (simp add: demo_browser_def demo_parse_def)

lemma demo_parse_three:
  "JSON_parse demo_browser three_items_text =
     Some (JArr [JObj [(lit ''id'', JStr (lit ''1''))], JObj [(lit ''id'', JStr (lit ''2''))],
                 JObj [(lit ''id'', JStr (lit ''3''))]])"
  by (simp add: demo_browser_def demo_parse_def three_items_text_def quoted_def lit_def)

lemma demo_first_submit:
  "run demo_browser (mount demo_browser amb0) [(amb0, SetInput (lit ''hi'')), (amb0, Submit)] =
    Inr (handleChat_call demo_browser amb0 (setInput (lit ''hi'') (mount demo_browser amb0)))"
  by simp

lemma demo_first_submit_typing:
  "isTyping (app (handleChat_call demo_browser amb0 (setInput (lit ''hi'') (mount demo_browser amb0))))"
  by (simp add: handleChat_call_def setInput_def mount_def fetchNews_call_def initialState_def
      Let_def trim_def isWhiteSpace_def lit_def)

section \<open>The claims of the specification\<close>

subsection \<open>C1\<close>

text \<open>
  C1. A news retrieval that fails changes neither the news list nor the time of the last
  synchronisation, and no exception leaves \<^verbatim>\<open>fetchNews\<close>. When the awaited call is rejected,
  or resolves with a text that \<^verbatim>\<open>JSON.parse\<close> rejects, the rest of \<^verbatim>\<open>fetchNews\<close> returns
  normally (\<open>Inr\<close>), with the same news list and the same \<^verbatim>\<open>lastSync\<close>, the loading flag
  cleared and the exception on the console. Moreover \<^verbatim>\<open>lastSync\<close> is written on success only:
  an event that changes it is the settlement of a retrieval whose text parsed to an array.
\<close>

theorem failed_retrieval_keeps_news:
  "(settled = Rejected err \<or>
    (\<exists>response. settled = Resolved response \<and> JSON_parse rt (text_or_fallback response) = None)
    \<longrightarrow> (\<exists>w' e. fetchNews_resume rt amb settled w = Inr w' \<and>
               news (app w') = news (app w) \<and> lastSync (app w') = lastSync (app w) \<and>
               \<not> loading (app w') \<and> console w' = console w @ [NewsEngineFailure e])) \<and>
   (step rt wa ev = Inr wb \<and> lastSync (app wb) \<noteq> lastSync (app wa)
    \<longrightarrow> (\<exists>amba response items. ev = (amba, NewsSettled (Resolved response)) \<and>
               JSON_parse rt (text_or_fallback response) = Some (JArr items)))"
proof (intro conjI impI)
  assume "settled = Rejected err \<or>
    (\<exists>response. settled = Resolved response \<and> JSON_parse rt (text_or_fallback response) = None)"
  then obtain e where "fetchNews_try rt amb settled (app w) = Inl e"
    using fetchNews_try_failure by blast
  then show "\<exists>w' e. fetchNews_resume rt amb settled w = Inr w' \<and>
               news (app w') = news (app w) \<and> lastSync (app w') = lastSync (app w) \<and>
               \<not> loading (app w') \<and> console w' = console w @ [NewsEngineFailure e]"
    by (simp add: fetchNews_resume_caught)
next
  assume "step rt wa ev = Inr wb \<and> lastSync (app wb) \<noteq> lastSync (app wa)"
  then show "\<exists>amba response items. ev = (amba, NewsSettled (Resolved response)) \<and>
               JSON_parse rt (text_or_fallback response) = Some (JArr items)"
    using step_lastSync by blast
qed

theorem failed_retrieval_keeps_news_witness:
  "JSON_parse demo_browser
     (text_or_fallback (response_with [] (Some (lit ''Service unavailable'')))) = None \<and>
   (\<exists>w' e. fetchNews_resume demo_browser amb1
              (Resolved (response_with [] (Some (lit ''Service unavailable''))))
              (mount demo_browser amb0) = Inr w' \<and>
      news (app w') = news (app (mount demo_browser amb0)) \<and>
      lastSync (app w') = lastSync (app (mount demo_browser amb0)) \<and>
      \<not> loading (app w') \<and>
      console w' = console (mount demo_browser amb0) @ [NewsEngineFailure e]) \<and>
   (\<exists>w'. step demo_browser (mount demo_browser amb0)
            (amb1, NewsSettled (Resolved (response_with [citation_A] (Some three_items_text)))) =
          Inr w' \<and>
      lastSync (app w') \<noteq> lastSync (app (mount demo_browser amb0)) \<and>
      (\<exists>items. JSON_parse demo_browser
                 (text_or_fallback (response_with [citation_A] (Some three_items_text))) =
               Some (JArr items)))"
proof -
  let ?w = "mount demo_browser amb0"
  let ?bad = "response_with [] (Some (lit ''Service unavailable''))"
  let ?good = "response_with [citation_A] (Some three_items_text)"
  have h: "JSON_parse demo_browser (text_or_fallback ?bad) = None"
    using demo_parse_not_json by (simp add: text_or_fallback_def response_with_def lit_def)
  have t: "text_or_fallback ?good = three_items_text"
    by (simp add: text_or_fallback_def response_with_def three_items_text_def lit_def)
  have f: "newsInFlight ?w \<noteq> 0" "lastSync (app ?w) = 0"
    by (simp_all add: mount_def fetchNews_call_def initialState_def amb0_def Let_def)
  from fetchNews_resume_success [of demo_browser ?good _ amb1 ?w] demo_parse_three t f
  obtain w' where s: "step demo_browser ?w (amb1, NewsSettled (Resolved ?good)) = Inr w'"
    and l: "lastSync (app w') \<noteq> lastSync (app ?w)"
    by (simp add: amb1_def)
  note T = failed_retrieval_keeps_news
    [where settled = "Resolved ?bad" and rt = demo_browser and amb = amb1 and w = ?w
      and wa = ?w and ev = "(amb1, NewsSettled (Resolved ?good))" and wb = w']
  from T h have a: "\<exists>w' e. fetchNews_resume demo_browser amb1 (Resolved ?bad) ?w = Inr w' \<and>
      news (app w') = news (app ?w) \<and> lastSync (app w') = lastSync (app ?w) \<and>
      \<not> loading (app w') \<and> console w' = console ?w @ [NewsEngineFailure e]"
    by blast
  from T s l have "\<exists>items. JSON_parse demo_browser (text_or_fallback ?good) = Some (JArr items)"
    by blast
  with h a s l show ?thesis by blast
qed

subsection \<open>C2\<close>

text \<open>
  C2. A chat turn whose provider call throws. Whatever the state, the rest of \<^verbatim>\<open>handleChat\<close>
  after a rejected \<^verbatim>\<open>sendMessage\<close> appends nothing to the transcript, clears \<^verbatim>\<open>isTyping\<close>,
  makes no call and logs the exception. For the whole turn, from a state whose input is not
  blank and in which no call is awaited: the transcript ends with the user's message, without
  a reply; \<^verbatim>\<open>isTyping\<close> is cleared; the calls are those made by the submission, one
  \<^verbatim>\<open>sendMessage\<close> and no second one.
\<close>

theorem failed_chat_turn:
  "(\<exists>w'. handleChat_resume (Rejected err) wa = Inr w' \<and>
      chatMessages (app w') = chatMessages (app wa) \<and> \<not> isTyping (app w') \<and>
      calls w' = calls wa \<and> console w' = console wa @ [ChatEngineFailure err]) \<and>
   (trim (input (app w)) \<noteq> [] \<and> \<not> isTyping (app w) \<longrightarrow>
      (\<exists>w'. run rt w [(amb, Submit), (amb', ChatSettled (Rejected err))] = Inr w' \<and>
         chatMessages (app w') =
           chatMessages (app w) @ [\<lparr>role = User, msg_text = Some (input (app w))\<rparr>] \<and>
         \<not> isTyping (app w') \<and>
         calls w' = calls (handleChat_call rt amb w) \<and>
         sent_messages w' = sent_messages w @ [input (app w)]))"
proof (intro conjI impI)
  show "\<exists>w'. handleChat_resume (Rejected err) wa = Inr w' \<and>
      chatMessages (app w') = chatMessages (app wa) \<and> \<not> isTyping (app w') \<and>
      calls w' = calls wa \<and> console w' = console wa @ [ChatEngineFailure err]"
    by (simp add: handleChat_resume_rejected)
next
  assume a: "trim (input (app w)) \<noteq> [] \<and> \<not> isTyping (app w)"
  let ?w = "handleChat_call rt amb w"
  from a have acc: "chatMessages (app ?w) =
           chatMessages (app w) @ [\<lparr>role = User, msg_text = Some (input (app w))\<rparr>]"
    "sent_messages ?w = sent_messages w @ [input (app w)]" "chatInFlight ?w = Suc (chatInFlight w)"
    using handleChat_call_accepted by blast+
  then show "\<exists>w'. run rt w [(amb, Submit), (amb', ChatSettled (Rejected err))] = Inr w' \<and>
         chatMessages (app w') =
           chatMessages (app w) @ [\<lparr>role = User, msg_text = Some (input (app w))\<rparr>] \<and>
         \<not> isTyping (app w') \<and>
         calls w' = calls (handleChat_call rt amb w) \<and>
         sent_messages w' = sent_messages w @ [input (app w)]"
    by (simp add: handleChat_resume_rejected sent_messages_def)
qed

theorem failed_chat_turn_witness:
  "trim (input (app (setInput (lit ''hi'') (mount demo_browser amb0)))) \<noteq> [] \<and>
   \<not> isTyping (app (setInput (lit ''hi'') (mount demo_browser amb0))) \<and>
   (\<exists>w'. run demo_browser (setInput (lit ''hi'') (mount demo_browser amb0))
            [(amb0, Submit), (amb1, ChatSettled (Rejected (ProviderError (lit ''Failed to fetch''))))]
          = Inr w' \<and>
      chatMessages (app w') = [\<lparr>role = User, msg_text = Some (lit ''hi'')\<rparr>] \<and>
      \<not> isTyping (app w') \<and>
      sent_messages w' = [lit ''hi''])"
proof -
  let ?w = "setInput (lit ''hi'') (mount demo_browser amb0)"
  have h1: "trim (input (app ?w)) \<noteq> []"
    by (simp add: setInput_def trim_def isWhiteSpace_def lit_def)
  have h2: "\<not> isTyping (app ?w)"
    by (simp add: setInput_def mount_def fetchNews_call_def initialState_def Let_def)
  have m: "chatMessages (app ?w) = []" "sent_messages ?w = []" "input (app ?w) = lit ''hi''"
    by (simp_all add: setInput_def mount_def fetchNews_call_def initialState_def Let_def
        sent_messages_def)
  from failed_chat_turn
    [where w = ?w and rt = demo_browser and amb = amb0 and amb' = amb1
      and err = "ProviderError (lit ''Failed to fetch'')"] h1 h2
  have "\<exists>w'. run demo_browser ?w
            [(amb0, Submit), (amb1, ChatSettled (Rejected (ProviderError (lit ''Failed to fetch''))))]
          = Inr w' \<and>
         chatMessages (app w') =
           chatMessages (app ?w) @ [\<lparr>role = User, msg_text = Some (input (app ?w))\<rparr>] \<and>
         \<not> isTyping (app w') \<and>
         sent_messages w' = sent_messages ?w @ [input (app ?w)]"
    by blast
  with h1 h2 show ?thesis unfolding m by simp
qed

subsection \<open>C3\<close>

text \<open>
  C3. The transcript only grows: over every sequence of events the transcript before is a
  prefix of the transcript after. From the mounted component, over events none of which is a
  failed chat call, the roles alternate user, model, the user's entries are the messages
  sent, in the order sent, and twice the number of messages sent is the number of entries,
  plus one while a call is awaited. And \<open>N\<close> successful turns in a row leave exactly the
  \<open>2N\<close> entries of these turns, each user entry followed by its reply.
\<close>

theorem transcript_append_only:
  "(run rt w es = Inr w' \<longrightarrow> prefix (chatMessages (app w)) (chatMessages (app w'))) \<and>
   (run rt (mount rt amb) esa = Inr wa \<and> (\<forall>e\<in>set esa. \<not> is_chat_failure e) \<longrightarrow>
      alternating (chatMessages (app wa)) \<and>
      length (chatMessages (app wa)) + (if isTyping (app wa) then 1 else 0) =
        2 * length (sent_messages wa) \<and>
      user_texts (chatMessages (app wa)) = map Some (sent_messages wa)) \<and>
   ((\<forall>(amb, m, amb', response)\<in>set ts. trim m \<noteq> []) \<longrightarrow>
      (\<exists>wb. run rt (mount rt amb) (concat (map turn_events ts)) = Inr wb \<and>
         chatMessages (app wb) = concat (map turn_entries ts) \<and>
         length (chatMessages (app wb)) = 2 * length ts \<and>
         alternating (chatMessages (app wb))))"
proof (intro conjI impI)
  assume "run rt w es = Inr w'"
  then show "prefix (chatMessages (app w)) (chatMessages (app w'))"
    by (rule run_transcript_prefix)
next
  assume a: "run rt (mount rt amb) esa = Inr wa \<and> (\<forall>e\<in>set esa. \<not> is_chat_failure e)"
  then have "transcript_inv wa"
    using transcript_inv_run [OF chat_inv_mount transcript_inv_mount] by blast
  then show "alternating (chatMessages (app wa))"
    and "length (chatMessages (app wa)) + (if isTyping (app wa) then 1 else 0) =
        2 * length (sent_messages wa)"
    and "user_texts (chatMessages (app wa)) = map Some (sent_messages wa)"
    by (simp_all add: transcript_inv_def)
next
  assume "\<forall>(amb, m, amb', response)\<in>set ts. trim m \<noteq> []"
  from successful_turns [where w = "mount rt amb" and rt = rt, OF mount_idle(1,2) this]
  show "\<exists>wb. run rt (mount rt amb) (concat (map turn_events ts)) = Inr wb \<and>
         chatMessages (app wb) = concat (map turn_entries ts) \<and>
         length (chatMessages (app wb)) = 2 * length ts \<and>
         alternating (chatMessages (app wb))"
    by (auto simp: mount_idle length_turn_entries alternating_turn_entries)
qed

theorem transcript_append_only_witness:
  "trim (lit ''hi'') \<noteq> [] \<and> trim (lit ''more'') \<noteq> [] \<and>
   (\<exists>w. run demo_browser (mount demo_browser amb0)
          [(amb0, SetInput (lit ''hi'')), (amb0, Submit),
           (amb0, ChatSettled (Resolved (response_with [] (Some (lit ''hello''))))),
           (amb1, SetInput (lit ''more'')), (amb1, Submit),
           (amb1, ChatSettled (Resolved (response_with [citation_A] None)))] = Inr w \<and>
      chatMessages (app w) =
        [\<lparr>role = User, msg_text = Some (lit ''hi'')\<rparr>, \<lparr>role = Model, msg_text = Some (lit ''hello'')\<rparr>,
         \<lparr>role = User, msg_text = Some (lit ''more'')\<rparr>, \<lparr>role = Model, msg_text = None\<rparr>] \<and>
      prefix (chatMessages (app (mount demo_browser amb0))) (chatMessages (app w)) \<and>
      length (chatMessages (app w)) = 4 \<and>
      alternating (chatMessages (app w)) \<and>
      user_texts (chatMessages (app w)) = map Some (sent_messages w))"
proof -
  let ?ts = "[(amb0, lit ''hi'', amb0, response_with [] (Some (lit ''hello''))),
              (amb1, lit ''more'', amb1, response_with [citation_A] None)]"
  let ?es = "[(amb0, SetInput (lit ''hi'')), (amb0, Submit),
           (amb0, ChatSettled (Resolved (response_with [] (Some (lit ''hello''))))),
           (amb1, SetInput (lit ''more'')), (amb1, Submit),
           (amb1, ChatSettled (Resolved (response_with [citation_A] None)))]"
  let ?start = "mount demo_browser amb0"
  have h: "\<forall>(amb, m, amb', response)\<in>set ?ts. trim m \<noteq> []"
    by (simp add: trim_def isWhiteSpace_def lit_def)
  have es: "concat (map turn_events ?ts) = ?es" by simp
  have nf: "\<forall>e\<in>set ?es. \<not> is_chat_failure e" by simp
  from transcript_append_only [where rt = demo_browser and amb = amb0 and ts = ?ts] h
  have "\<exists>wb. run demo_browser ?start (concat (map turn_events ?ts)) = Inr wb \<and>
          chatMessages (app wb) = concat (map turn_entries ?ts) \<and>
          length (chatMessages (app wb)) = 2 * length ?ts"
    by blast
  then obtain w where r: "run demo_browser ?start ?es = Inr w"
    and m: "chatMessages (app w) = concat (map turn_entries ?ts)"
    and l: "length (chatMessages (app w)) = 2 * length ?ts"
    unfolding es by blast
  from transcript_append_only
    [where rt = demo_browser and w = ?start and es = ?es and w' = w and amb = amb0 and esa = ?es
      and wa = w] r nf
  have p: "prefix (chatMessages (app ?start)) (chatMessages (app w))"
    and a: "alternating (chatMessages (app w))"
    and u: "user_texts (chatMessages (app w)) = map Some (sent_messages w)"
    by blast+
  from m have m': "chatMessages (app w) =
        [\<lparr>role = User, msg_text = Some (lit ''hi'')\<rparr>, \<lparr>role = Model, msg_text = Some (lit ''hello'')\<rparr>,
         \<lparr>role = User, msg_text = Some (lit ''more'')\<rparr>, \<lparr>role = Model, msg_text = None\<rparr>]"
    by (simp add: response_with_def)
  from l have l': "length (chatMessages (app w)) = 4" by simp
  have h': "trim (lit ''hi'') \<noteq> []" "trim (lit ''more'') \<noteq> []"
    by (simp_all add: trim_def isWhiteSpace_def lit_def)
  from h' r m' p l' a u show ?thesis by blast
qed

subsection \<open>C4\<close>

text \<open>
  C4. When every code unit of the input is white space (in particular when the input is
  empty), \<^verbatim>\<open>handleChat\<close> returns at its guard: the state, the transcript in it, and the list
  of calls are what they were.
\<close>

theorem whitespace_input_is_rejected:
  assumes "\<forall>c\<in>set (input (app w)). isWhiteSpace c"
  shows "handleChat_call rt amb w = w \<and> step rt w (amb, Submit) = Inr w"
proof -
  from assms have "trim (input (app w)) = []" by (simp add: trim_eq_Nil_iff)
  then show ?thesis by (simp add: handleChat_call_blank)
qed

theorem whitespace_input_is_rejected_witness:
  "input (app (setInput [0x20, 0x09, 0x3000, 0x0A] (mount demo_browser amb0))) =
     [0x20, 0x09, 0x3000, 0x0A] \<and>
   isWhiteSpace 0x20 \<and> isWhiteSpace 0x09 \<and> isWhiteSpace 0x3000 \<and> isWhiteSpace 0x0A \<and>
   handleChat_call demo_browser amb0 (setInput [0x20, 0x09, 0x3000, 0x0A] (mount demo_browser amb0)) =
     setInput [0x20, 0x09, 0x3000, 0x0A] (mount demo_browser amb0) \<and>
   step demo_browser (setInput [0x20, 0x09, 0x3000, 0x0A] (mount demo_browser amb0)) (amb0, Submit) =
     Inr (setInput [0x20, 0x09, 0x3000, 0x0A] (mount demo_browser amb0))"
proof -
  let ?w = "setInput [0x20, 0x09, 0x3000, 0x0A] (mount demo_browser amb0)"
  have i: "input (app ?w) = [0x20, 0x09, 0x3000, 0x0A]" by (simp add: setInput_def)
  have s: "isWhiteSpace 0x20" "isWhiteSpace 0x09" "isWhiteSpace 0x3000" "isWhiteSpace 0x0A"
    by (simp_all add: isWhiteSpace_def)
  have h: "\<forall>c\<in>set (input (app ?w)). isWhiteSpace c" unfolding i using s by simp
  from whitespace_input_is_rejected [OF h, of demo_browser amb0] i s show ?thesis by blast
qed

subsection \<open>C5\<close>

text \<open>
  C5. While \<^verbatim>\<open>isTyping\<close> is set a submission changes nothing and calls nothing. In every
  state reached from the mounted component at most one chat call is in flight, and
  \<^verbatim>\<open>isTyping\<close> is set exactly when one is. The settlement of the call, resolved or
  rejected, clears \<^verbatim>\<open>isTyping\<close>.
\<close>

theorem chat_gate:
  "(isTyping (app w) \<longrightarrow>
      handleChat_call rt amb w = w \<and> step rt w (amb, Submit) = Inr w) \<and>
   (run rt (mount rt amb') es = Inr wa \<longrightarrow>
      chatInFlight wa \<le> 1 \<and> (isTyping (app wa) \<longleftrightarrow> chatInFlight wa = 1)) \<and>
   (\<exists>w'. handleChat_resume settled wb = Inr w' \<and> \<not> isTyping (app w'))"
proof (intro conjI impI)
  assume "isTyping (app w)"
  then show "handleChat_call rt amb w = w" by (rule handleChat_call_busy)
  then show "step rt w (amb, Submit) = Inr w" by simp
next
  assume r: "run rt (mount rt amb') es = Inr wa"
  have "chat_inv wa" using chat_inv_run [OF chat_inv_mount r] .
  then show "chatInFlight wa \<le> 1" "isTyping (app wa) \<longleftrightarrow> chatInFlight wa = 1"
    by (simp_all add: chat_inv_def)
next
  show "\<exists>w'. handleChat_resume settled wb = Inr w' \<and> \<not> isTyping (app w')"
    using handleChat_resume_settles by blast
qed

theorem chat_gate_witness:
  "isTyping (app (handleChat_call demo_browser amb0 (setInput (lit ''hi'') (mount demo_browser amb0)))) \<and>
   run demo_browser (mount demo_browser amb0) [(amb0, SetInput (lit ''hi'')), (amb0, Submit)] =
     Inr (handleChat_call demo_browser amb0 (setInput (lit ''hi'') (mount demo_browser amb0))) \<and>
   step demo_browser
     (handleChat_call demo_browser amb0 (setInput (lit ''hi'') (mount demo_browser amb0)))
     (amb1, Submit) =
     Inr (handleChat_call demo_browser amb0 (setInput (lit ''hi'') (mount demo_browser amb0))) \<and>
   chatInFlight (handleChat_call demo_browser amb0 (setInput (lit ''hi'') (mount demo_browser amb0))) = 1"
proof -
  let ?w = "handleChat_call demo_browser amb0 (setInput (lit ''hi'') (mount demo_browser amb0))"
  let ?es = "[(amb0, SetInput (lit ''hi'')), (amb0, Submit)]"
  from chat_gate [where w = ?w and rt = demo_browser and amb = amb1 and amb' = amb0 and es = ?es
      and wa = ?w]
    demo_first_submit demo_first_submit_typing
  show ?thesis by blast
qed

subsection \<open>C6\<close>

text \<open>
  C6. The chat session is made once, by the first accepted message. In every state reached
  from the mounted component there is at most one \<^verbatim>\<open>chats.create\<close> among the calls, the ref
  is empty exactly as long as no message has been sent, and every \<^verbatim>\<open>sendMessage\<close> went to
  the session in the ref. An accepted submission that finds the ref empty makes the session
  from the clock and language read then, and its system instruction contains the date, the
  time and the ISO timestamp of that moment. Once the ref holds a session no sequence of
  events replaces it, and a later accepted submission sends to that same session, whatever
  the clock reads by then.
\<close>

theorem chat_session_created_once:
  "(run rt (mount rt amb) es = Inr w \<longrightarrow>
      length (filter is_ChatsCreate (calls w)) \<le> 1 \<and>
      (chatInstance (app w) = None \<longleftrightarrow> sent_messages w = []) \<and>
      (\<forall>c\<in>set (filter is_SendMessage (calls w)). chatInstance (app w) = Some (session c))) \<and>
   (trim (input (app wa)) \<noteq> [] \<and> \<not> isTyping (app wa) \<and> chatInstance (app wa) = None \<longrightarrow>
      chatInstance (app (handleChat_call rt amba wa)) = Some (chats_create rt amba) \<and>
      calls (handleChat_call rt amba wa) =
        calls wa @ [ChatsCreate (chats_create rt amba),
                    SendMessage (chats_create rt amba) (input (app wa))]) \<and>
   sublist (toLocaleDateString rt (language amba) (now amba))
     (systemInstruction (chats_create rt amba)) \<and>
   sublist (toLocaleTimeString rt (language amba) (now amba))
     (systemInstruction (chats_create rt amba)) \<and>
   sublist (toISOString rt (now amba)) (systemInstruction (chats_create rt amba)) \<and>
   (chatInstance (app wb) = Some chat \<and> run rt wb esb = Inr wc \<longrightarrow>
      chatInstance (app wc) = Some chat) \<and>
   (trim (input (app wb)) \<noteq> [] \<and> \<not> isTyping (app wb) \<and> chatInstance (app wb) = Some chat \<longrightarrow>
      chatInstance (app (handleChat_call rt ambb wb)) = Some chat \<and>
      calls (handleChat_call rt ambb wb) = calls wb @ [SendMessage chat (input (app wb))])"
proof (intro conjI impI)
  assume r: "run rt (mount rt amb) es = Inr w"
  have inv: "chat_inv w" using chat_inv_run [OF chat_inv_mount r] .
  then show "length (filter is_ChatsCreate (calls w)) \<le> 1"
    using length_created_le [of "calls w" "chatInstance (app w)"] by (simp add: chat_inv_def)
  from inv show "chatInstance (app w) = None \<longleftrightarrow> sent_messages w = []"
    by (simp add: chat_inv_def)
  from inv show "\<forall>c\<in>set (filter is_SendMessage (calls w)). chatInstance (app w) = Some (session c)"
    by (simp add: chat_inv_def)
next
  assume a: "trim (input (app wa)) \<noteq> [] \<and> \<not> isTyping (app wa) \<and> chatInstance (app wa) = None"
  then show "chatInstance (app (handleChat_call rt amba wa)) = Some (chats_create rt amba)"
    using handleChat_call_first(1) by blast
  from a show "calls (handleChat_call rt amba wa) =
        calls wa @ [ChatsCreate (chats_create rt amba),
                    SendMessage (chats_create rt amba) (input (app wa))]"
    using handleChat_call_first(2) by blast
next
  show "sublist (toLocaleDateString rt (language amba) (now amba))
     (systemInstruction (chats_create rt amba))"
    by (simp add: chats_create_def systemInstruction_contains_date)
  show "sublist (toLocaleTimeString rt (language amba) (now amba))
     (systemInstruction (chats_create rt amba))"
    by (simp add: chats_create_def systemInstruction_contains_time)
  show "sublist (toISOString rt (now amba)) (systemInstruction (chats_create rt amba))"
    by (simp add: chats_create_def systemInstruction_contains_iso)
next
  assume "chatInstance (app wb) = Some chat \<and> run rt wb esb = Inr wc"
  then show "chatInstance (app wc) = Some chat" using chatInstance_run by blast
next
  assume a: "trim (input (app wb)) \<noteq> [] \<and> \<not> isTyping (app wb) \<and> chatInstance (app wb) = Some chat"
  then show "chatInstance (app (handleChat_call rt ambb wb)) = Some chat"
    using handleChat_call_later(1) by blast
  from a show "calls (handleChat_call rt ambb wb) = calls wb @ [SendMessage chat (input (app wb))]"
    using handleChat_call_later(2) by blast
qed

theorem chat_session_created_once_witness:
  "trim (input (app (setInput (lit ''hi'') (mount demo_browser amb0)))) \<noteq> [] \<and>
   \<not> isTyping (app (setInput (lit ''hi'') (mount demo_browser amb0))) \<and>
   chatInstance (app (setInput (lit ''hi'') (mount demo_browser amb0))) = None \<and>
   (\<exists>w. run demo_browser (mount demo_browser amb0)
          [(amb0, SetInput (lit ''hi'')), (amb0, Submit),
           (amb0, ChatSettled (Resolved (response_with [] (Some (lit ''hello''))))),
           (amb1, SetInput (lit ''more''))] = Inr w \<and>
      trim (input (app w)) \<noteq> [] \<and> \<not> isTyping (app w) \<and>
      chatInstance (app w) = Some (chats_create demo_browser amb0) \<and>
      length (filter is_ChatsCreate (calls w)) \<le> 1 \<and>
      chatInstance (app (handleChat_call demo_browser amb1 w)) =
        Some (chats_create demo_browser amb0) \<and>
      calls (handleChat_call demo_browser amb1 w) =
        calls w @ [SendMessage (chats_create demo_browser amb0) (lit ''more'')]) \<and>
   sublist (lit ''1970-01-01T00:00:00.000Z'') (systemInstruction (chats_create demo_browser amb0))"
proof -
  let ?start = "mount demo_browser amb0"
  let ?wa = "setInput (lit ''hi'') ?start"
  let ?wb = "handleChat_call demo_browser amb0 ?wa"
  let ?chat = "chats_create demo_browser amb0"
  let ?rest = "[(amb0, ChatSettled (Resolved (response_with [] (Some (lit ''hello''))))),
           (amb1, SetInput (lit ''more''))]"
  let ?es = "[(amb0, SetInput (lit ''hi'')), (amb0, Submit)] @ ?rest"
  have h1: "trim (input (app ?wa)) \<noteq> []"
    by (simp add: setInput_def trim_def isWhiteSpace_def lit_def)
  have h2: "\<not> isTyping (app ?wa)" "chatInstance (app ?wa) = None"
    by (simp_all add: setInput_def mount_idle)
  have fl: "chatInFlight ?wb \<noteq> 0"
    using handleChat_call_accepted(3) [OF h1 h2(1)] by simp
  obtain wr where wr: "handleChat_resume (Resolved (response_with [] (Some (lit ''hello'')))) ?wb = Inr wr"
    and idle: "\<not> isTyping (app wr)"
    using handleChat_resume_settles by blast
  let ?w = "setInput (lit ''more'') wr"
  have rest: "run demo_browser ?wb ?rest = Inr ?w" using wr fl by simp
  have r: "run demo_browser ?start ?es = Inr ?w"
    using demo_first_submit rest by (simp only: run_append sum.case)
  have h3: "trim (input (app ?w)) \<noteq> []"
    by (simp add: setInput_def trim_def isWhiteSpace_def lit_def)
  have h4: "\<not> isTyping (app ?w)" using idle by (simp add: setInput_def)
  have i: "input (app ?w) = lit ''more''" by (simp add: setInput_def)
  note T = chat_session_created_once
    [where rt = demo_browser and amb = amb0 and es = ?es and w = ?w and wa = ?wa and amba = amb0
      and wb = ?wb and chat = ?chat and esb = ?rest and wc = ?w]
  note T' = chat_session_created_once
    [where rt = demo_browser and wb = ?w and chat = ?chat and ambb = amb1]
  from T h1 h2 have c: "chatInstance (app ?wb) = Some ?chat" by blast
  with T rest have k: "chatInstance (app ?w) = Some ?chat" by blast
  from T r have n: "length (filter is_ChatsCreate (calls ?w)) \<le> 1" by blast
  from T' h3 h4 k have l: "chatInstance (app (handleChat_call demo_browser amb1 ?w)) = Some ?chat"
    "calls (handleChat_call demo_browser amb1 ?w) = calls ?w @ [SendMessage ?chat (input (app ?w))]"
    by blast+
  from T have "sublist (toISOString demo_browser (now amb0)) (systemInstruction ?chat)" by blast
  then have s: "sublist (lit ''1970-01-01T00:00:00.000Z'') (systemInstruction ?chat)"
    by (simp add: demo_browser_def amb0_def)
  from r have r': "run demo_browser ?start
          [(amb0, SetInput (lit ''hi'')), (amb0, Submit),
           (amb0, ChatSettled (Resolved (response_with [] (Some (lit ''hello''))))),
           (amb1, SetInput (lit ''more''))] = Inr ?w"
    by (simp only: append.simps)
  from l(2) have l2: "calls (handleChat_call demo_browser amb1 ?w) =
      calls ?w @ [SendMessage ?chat (lit ''more'')]" unfolding i .
  from h1 h2 r' h3 h4 k n l(1) l2 s show ?thesis by blast
qed

subsection \<open>C7\<close>



subsection \<open>C8\<close>

text \<open>
  C8 as stated fails. The effect that calls \<^verbatim>\<open>fetchNews\<close> depends on \<^verbatim>\<open>selectedCategory\<close>:
  selecting the category that is already selected (here \<^verbatim>\<open>General\<close>, right after mounting)
  leaves that state cell as it is, the effect does not run, and no retrieval call is made.
\<close>

theorem reselecting_category_fetches_nothing:
  "lit ''General'' \<in> set CATEGORY_LIST \<and>
   calls (selectCategory demo_browser amb1 (lit ''General'') (mount demo_browser amb0)) =
     calls (mount demo_browser amb0) \<and>
   length (calls (selectCategory demo_browser amb1 (lit ''General'') (mount demo_browser amb0))) \<noteq>
     length (calls (mount demo_browser amb0)) + 1"
  by (simp add: CATEGORY_LIST_def selectCategory_def mount_def fetchNews_call_def initialState_def
      Let_def)

text \<open>
  C8, as amended. Selecting a category of \<^verbatim>\<open>CATEGORY_LIST\<close> that is not the one currently
  selected makes exactly one retrieval call, and the prompt of that call contains the
  category's token.
\<close>

theorem category_change_triggers_one_retrieval:
  assumes "cat \<in> set CATEGORY_LIST" "cat \<noteq> selectedCategory (app w)"
  shows "calls (selectCategory rt amb cat w) =
           calls w @ [GenerateContent (fetchNews_request rt amb cat)] \<and>
         newsInFlight (selectCategory rt amb cat w) = Suc (newsInFlight w) \<and>
         sublist cat (contents (fetchNews_request rt amb cat))"
  using assms
  by (auto simp: selectCategory_def fetchNews_call_def fetchNews_request_def Let_def
      prompt_contains_category)

theorem category_change_triggers_one_retrieval_witness:
  "lit ''Salud'' \<in> set CATEGORY_LIST \<and>
   lit ''Salud'' \<noteq> selectedCategory (app (mount demo_browser amb0)) \<and>
   calls (selectCategory demo_browser amb1 (lit ''Salud'') (mount demo_browser amb0)) =
     calls (mount demo_browser amb0) @ [GenerateContent (fetchNews_request demo_browser amb1 (lit ''Salud''))] \<and>
   sublist (lit ''Salud'') (contents (fetchNews_request demo_browser amb1 (lit ''Salud'')))"
proof -
  have h1: "lit ''Salud'' \<in> set CATEGORY_LIST" by (simp add: CATEGORY_LIST_def)
  have h2: "lit ''Salud'' \<noteq> selectedCategory (app (mount demo_browser amb0))"
    by (simp add: mount_def fetchNews_call_def initialState_def Let_def lit_def)
  from category_change_triggers_one_retrieval [OF h1 h2, of demo_browser amb1] h1 h2
  show ?thesis by blast
qed

subsection \<open>C9\<close>

text \<open>
  C9. For a news list whose objects have, item by item, the fields of \<^verbatim>\<open>NewsItem\<close>
  values, \<^verbatim>\<open>exportCSV\<close> offers one file of type \<^verbatim>\<open>text/csv\<close> whose content is the
  report as the specification words it, and whose name is \<^verbatim>\<open>MrDaniel_Report_\<close>, the
  clock reading, \<^verbatim>\<open>.csv\<close>; for a clock at or after the epoch the reading is written
  in decimal digits only and denotes the milliseconds read.
\<close>

theorem exported_csv_format:
  assumes "list_all2 has_fields (news (app w)) items"
  shows "downloads (exportCSV amb w) =
           downloads w @
             [\<lparr>download = lit ''MrDaniel_Report_'' @ toString_int (now amb) @ lit ''.csv'',
               blob_parts = spec_csv items, blob_type = lit ''text/csv''\<rparr>] \<and>
         (0 \<le> now amb \<longrightarrow>
            (\<forall>c\<in>set (toString_int (now amb)). is_digit c) \<and>
            int (decimal_value (toString_int (now amb))) = now amb)"
  using assms
  by (simp add: exportCSV_def exportCSV_csv_has_fields toString_int_def digits_are_digits
      decimal_value_digits del: digits.simps)

theorem exported_csv_format_witness:
  "list_all2 has_fields
     (news (app (with_news [annotate [citation_A] (item_json demo_item)] (mount demo_browser amb0))))
     [demo_item] \<and>
   downloads (exportCSV amb1
      (with_news [annotate [citation_A] (item_json demo_item)] (mount demo_browser amb0))) =
     [\<lparr>download = lit ''MrDaniel_Report_60000.csv'',
       blob_parts = lit ''Title,Category,Verified,Time,URL'' @ [0x0A, 0x22] @ lit ''Rates held'' @
         [0x22] @ lit '',Econom'' @ [0xED] @
         lit ''a,YES,2026-01-01T00:00:00Z,https://a.example/1'',
       blob_type = lit ''text/csv''\<rparr>] \<and>
   decimal_value (toString_int (now amb1)) = 60000"
proof -
  let ?w = "with_news [annotate [citation_A] (item_json demo_item)] (mount demo_browser amb0)"
  have h: "list_all2 has_fields (news (app ?w)) [demo_item]"
    by (simp add: with_news_def has_fields_annotate)
  have d: "downloads ?w = []" by (simp add: with_news_def mount_def fetchNews_call_def Let_def)
  have n: "now amb1 = 60000" by (simp add: amb1_def)
  have f: "lit ''MrDaniel_Report_'' @ toString_int 60000 @ lit ''.csv'' = lit ''MrDaniel_Report_60000.csv''"
    by (simp add: toString_int_def lit_def)
  have c: "spec_csv [demo_item] =
      lit ''Title,Category,Verified,Time,URL'' @ [0x0A, 0x22] @ lit ''Rates held'' @
         [0x22] @ lit '',Econom'' @ [0xED] @
         lit ''a,YES,2026-01-01T00:00:00Z,https://a.example/1''"
    by (simp add: spec_csv_def spec_csv_row_def demo_item_def lit_def)
  from exported_csv_format [OF h, of amb1] h d n f c show ?thesis by simp
qed

subsection \<open>C10\<close>

text \<open>
  C10. Given that \<^verbatim>\<open>JSON.parse("[]")\<close> is the empty array: a retrieval that resolves with an
  absent or an empty text parses the fallback, replaces the news list by the empty list and
  sets \<^verbatim>\<open>lastSync\<close> to the clock reading; nothing is logged.
\<close>

theorem empty_text_wipes_news:
  assumes "JSON_parse rt (lit ''[]'') = Some (JArr [])"
    and "response_text response = None \<or> response_text response = Some []"
  shows "text_or_fallback response = lit ''[]'' \<and>
         (\<exists>w'. fetchNews_resume rt amb (Resolved response) w = Inr w' \<and>
            news (app w') = [] \<and> lastSync (app w') = now amb \<and> console w' = console w)"
proof -
  from assms(2) have t: "text_or_fallback response = lit ''[]''"
    by (auto simp: text_or_fallback_def)
  with assms(1) have "JSON_parse rt (text_or_fallback response) = Some (JArr [])" by simp
  from fetchNews_resume_success [OF this] t show ?thesis by simp
qed

theorem empty_text_wipes_news_witness:
  "JSON_parse demo_browser (lit ''[]'') = Some (JArr []) \<and>
   response_text (response_with [citation_A] (Some [])) = Some [] \<and>
   news (app (with_news [annotate [citation_A] (item_json demo_item)] (mount demo_browser amb0))) \<noteq> [] \<and>
   (\<exists>w'. fetchNews_resume demo_browser amb1 (Resolved (response_with [citation_A] (Some [])))
            (with_news [annotate [citation_A] (item_json demo_item)] (mount demo_browser amb0)) =
          Inr w' \<and>
      news (app w') = [] \<and> lastSync (app w') = 60000)"
proof -
  have h: "response_text (response_with [citation_A] (Some [])) = None \<or>
           response_text (response_with [citation_A] (Some [])) = Some []"
    by (simp add: response_with_def)
  from empty_text_wipes_news [OF demo_parse_empty h, of amb1]
  show ?thesis by (auto simp: demo_parse_empty response_with_def amb1_def with_news_def)
qed

end
